theory Spec2Isabelle
  imports Complex_Main "HOL-Library.Multiset"
begin

section \<open>Clips: the \<open>TrackData\<close> record and its partial updates\<close>

text \<open>
  \<open>TrackData\<close> of the types module. Times and volumes are JavaScript numbers; they are
  modelled as reals (no \<open>NaN\<close>, no rounding), which is exact for the comparisons and the
  copies the handlers below perform. The field \<open>type\<close> has the single value \<open>'audio'\<close>.
  The fields \<open>id\<close> and \<open>type\<close> are written \<open>id'\<close> and \<open>type'\<close>.
\<close>

datatype item_type = audio

record TrackData =
  id' :: string
  type' :: item_type
  name :: string
  fileUrl :: string
  volume :: real
  startPoint :: real
  isLooping :: bool
  assignedKey :: "string option"
  duration :: real
  path :: "string option"

text \<open>
  \<open>Partial<TrackData>\<close>: every field may be absent (\<open>None\<close>). For the two nullable
  fields the inner option is the value written (\<open>Some None\<close> writes \<open>null\<close>).
\<close>

record TrackUpdates =
  u_id :: "string option"
  u_type :: "item_type option"
  u_name :: "string option"
  u_fileUrl :: "string option"
  u_volume :: "real option"
  u_startPoint :: "real option"
  u_isLooping :: "bool option"
  u_assignedKey :: "string option option"
  u_duration :: "real option"
  u_path :: "string option option"

definition no_updates :: TrackUpdates where
  "no_updates = \<lparr>u_id = None, u_type = None, u_name = None, u_fileUrl = None,
     u_volume = None, u_startPoint = None, u_isLooping = None, u_assignedKey = None,
     u_duration = None, u_path = None\<rparr>"

text \<open>The object spread \<open>{ ...item, ...updates }\<close>: a field present in the updates wins.\<close>

definition spread :: "TrackData \<Rightarrow> TrackUpdates \<Rightarrow> TrackData" where
  "spread item updates =
     \<lparr>id' = (case u_id updates of None \<Rightarrow> id' item | Some v \<Rightarrow> v),
      type' = (case u_type updates of None \<Rightarrow> type' item | Some v \<Rightarrow> v),
      name = (case u_name updates of None \<Rightarrow> name item | Some v \<Rightarrow> v),
      fileUrl = (case u_fileUrl updates of None \<Rightarrow> fileUrl item | Some v \<Rightarrow> v),
      volume = (case u_volume updates of None \<Rightarrow> volume item | Some v \<Rightarrow> v),
      startPoint = (case u_startPoint updates of None \<Rightarrow> startPoint item | Some v \<Rightarrow> v),
      isLooping = (case u_isLooping updates of None \<Rightarrow> isLooping item | Some v \<Rightarrow> v),
      assignedKey = (case u_assignedKey updates of None \<Rightarrow> assignedKey item | Some v \<Rightarrow> v),
      duration = (case u_duration updates of None \<Rightarrow> duration item | Some v \<Rightarrow> v),
      path = (case u_path updates of None \<Rightarrow> path item | Some v \<Rightarrow> v)\<rparr>"

text \<open>
  \<open>handleUpdateTrack\<close>, on the item list: \<open>prev.map\<close> rewrites the items whose id is the
  given one (and whose type is audio) and returns every other item as it is.
\<close>

definition updateItems :: "string \<Rightarrow> TrackUpdates \<Rightarrow> TrackData list \<Rightarrow> TrackData list" where
  "updateItems i updates prev =
     map (\<lambda>item. if id' item = i \<and> type' item = audio then spread item updates else item) prev"

section \<open>Key codes\<close>

text \<open>
  Both key handlers normalise the event's \<open>code\<close> the same way: a code that starts with
  \<open>Numpad\<close> and contains a digit has its first \<open>Numpad\<close> (the prefix) replaced by \<open>Digit\<close>.
\<close>

definition startsWith :: "string \<Rightarrow> string \<Rightarrow> bool" where
  "startsWith s p = (take (length p) s = p)"

definition hasDigit :: "string \<Rightarrow> bool" where
  "hasDigit s = list_ex (\<lambda>c. c \<in> set ''0123456789'') s"

definition normalizeCode :: "string \<Rightarrow> string" where
  "normalizeCode c =
     (if startsWith c ''Numpad'' \<and> hasDigit c then ''Digit'' @ drop (length ''Numpad'') c else c)"

section \<open>The audio card and its imperative handle\<close>

text \<open>
  The part of an \<open>HTMLAudioElement\<close> the card uses. \<open>play()\<close> on a paused element unpauses
  it and fires \<open>play\<close>; \<open>pause()\<close> on a playing element pauses it and fires \<open>pause\<close>; the
  card's listeners copy these events into its \<open>isPlaying\<close> state. The element is taken to
  accept \<open>play()\<close> (a rejected play promise is only logged by the card).
\<close>

record HTMLAudioElement =
  el_currentTime :: real
  el_paused :: bool

text \<open>
  The state of one \<open>AudioCard\<close>: its \<open>track\<close> prop, the element behind \<open>audioRef\<close>
  (\<open>None\<close> while \<open>audioRef.current\<close> is null), and the React states \<open>isPlaying\<close>,
  \<open>currentTime\<close> (the displayed playhead), \<open>duration\<close> (here \<open>card_duration\<close>),
  \<open>waitingForKey\<close> and \<open>isScrubbing\<close>.
\<close>

record AudioCard =
  track :: TrackData
  audioRef :: "HTMLAudioElement option"
  isPlaying :: bool
  currentTime :: real
  card_duration :: real
  waitingForKey :: bool
  isScrubbing :: bool

definition play :: "AudioCard \<Rightarrow> AudioCard" where
  "play c =
     (case audioRef c of
        None \<Rightarrow> c
      | Some a \<Rightarrow>
          let a1 = (if el_currentTime a < startPoint (track c)
                    then a\<lparr>el_currentTime := startPoint (track c)\<rparr> else a)
          in if el_paused a1
             then c\<lparr>audioRef := Some (a1\<lparr>el_paused := False\<rparr>), isPlaying := True\<rparr>
             else c\<lparr>audioRef := Some a1\<rparr>)"

definition pause :: "AudioCard \<Rightarrow> AudioCard" where
  "pause c =
     (case audioRef c of
        None \<Rightarrow> c
      | Some a \<Rightarrow>
          if el_paused a then c
          else c\<lparr>audioRef := Some (a\<lparr>el_paused := True\<rparr>), isPlaying := False\<rparr>)"

definition stop :: "AudioCard \<Rightarrow> AudioCard" where
  "stop c =
     (case audioRef c of
        None \<Rightarrow> c
      | Some a \<Rightarrow>
          c\<lparr>audioRef := Some (a\<lparr>el_paused := True, el_currentTime := startPoint (track c)\<rparr>),
            isPlaying := False\<rparr>)"

text \<open>
  \<open>handleScrub\<close>. \<open>left\<close> and \<open>width\<close> are the bounding rectangle of the progress bar
  (\<open>None\<close> while \<open>progressRef.current\<close> is null). The quotient \<open>x / rect.width\<close> is
  written out for a zero width: JavaScript gives an infinity, which the clamp turns into
  0 or 1, or \<open>NaN\<close> for \<open>0 / 0\<close>, which is not a time: that case is the result \<open>None\<close>.
\<close>

definition scrubFraction :: "real \<Rightarrow> real \<Rightarrow> real option" where
  "scrubFraction x width =
     (if width = 0
      then (if x = 0 then None else if 0 < x then Some 1 else Some 0)
      else Some (max 0 (min 1 (x / width))))"

definition handleScrub :: "real \<Rightarrow> (real \<times> real) option \<Rightarrow> AudioCard \<Rightarrow> AudioCard option" where
  "handleScrub clientX rect c =
     (case rect of
        None \<Rightarrow> Some c
      | Some (left, width) \<Rightarrow>
          if card_duration c = 0 then Some c
          else (case scrubFraction (clientX - left) width of
                  None \<Rightarrow> None
                | Some p \<Rightarrow>
                    let newTime = p * card_duration c
                    in Some (c\<lparr>audioRef := map_option (\<lambda>a. a\<lparr>el_currentTime := newTime\<rparr>) (audioRef c),
                               currentTime := newTime\<rparr>)))"

text \<open>
  \<open>startScrub\<close> (mouse down on the progress bar, left button only) and the \<open>mouseup\<close>
  listener that ends the scrub.
\<close>

definition startScrub :: "int \<Rightarrow> real \<Rightarrow> (real \<times> real) option \<Rightarrow> AudioCard \<Rightarrow> AudioCard option" where
  "startScrub button clientX rect c =
     (if button \<noteq> 0 then Some c else handleScrub clientX rect (c\<lparr>isScrubbing := True\<rparr>))"

definition onUp :: "AudioCard \<Rightarrow> AudioCard" where
  "onUp c = c\<lparr>isScrubbing := False\<rparr>"



text \<open>
  The key-mapping listener of a card that is waiting for a key: the update request it
  passes to \<open>onUpdate\<close>, and the card with \<open>waitingForKey\<close> cleared.
\<close>

definition handleKeyDown :: "string \<Rightarrow> AudioCard \<Rightarrow> (string \<times> TrackUpdates) \<times> AudioCard" where
  "handleKeyDown code c =
     ((id' (track c), no_updates\<lparr>u_assignedKey := Some (Some (normalizeCode code))\<rparr>),
      c\<lparr>waitingForKey := False\<rparr>)"

section \<open>The volume control\<close>

text \<open>
  \<open>VolumeControl\<close> keeps one state, \<open>lastVolume\<close>, initially 1. \<open>toggleMute\<close> returns the
  new state and the value it passes to \<open>onChange\<close>; the card's \<open>onChange\<close> writes that value
  into the track's volume, which comes back as the \<open>volume\<close> prop.
  \<open>lastVolume || 0.8\<close> is 0.8 when \<open>lastVolume\<close> is 0.
\<close>

record VolumeControl =
  lastVolume :: real

definition initialVolumeControl :: VolumeControl where
  "initialVolumeControl = \<lparr>lastVolume = 1\<rparr>"

definition toggleMute :: "real \<Rightarrow> VolumeControl \<Rightarrow> VolumeControl \<times> real" where
  "toggleMute vol vc =
     (if 0 < vol then (vc\<lparr>lastVolume := vol\<rparr>, 0)
      else (vc, if lastVolume vc = 0 then 0.8 else lastVolume vc))"

text \<open>One click on the mute button, on the pair of the control and the volume prop.\<close>

definition clickMute :: "VolumeControl \<times> real \<Rightarrow> VolumeControl \<times> real" where
  "clickMute p = toggleMute (snd p) (fst p)"

text \<open>
  What else changes the volume prop without passing through \<open>toggleMute\<close> (slider, wheel,
  keyboard, session load): any value may arrive.
\<close>

datatype volume_event = MuteClick | VolumeSet real

fun volumeStep :: "volume_event \<Rightarrow> VolumeControl \<times> real \<Rightarrow> VolumeControl \<times> real" where
  "volumeStep MuteClick p = clickMute p"
| "volumeStep (VolumeSet v) p = (fst p, v)"

fun volumeRun :: "volume_event list \<Rightarrow> VolumeControl \<times> real \<Rightarrow> VolumeControl \<times> real" where
  "volumeRun [] p = p"
| "volumeRun (e # es) p = volumeRun es (volumeStep e p)"

section \<open>The serial port wrapper\<close>

datatype DataBits = DataBits_Five | DataBits_Six | DataBits_Seven | DataBits_Eight
datatype FlowControl = FlowControl_None | FlowControl_Software | FlowControl_Hardware
datatype Parity = Parity_None | Parity_Odd | Parity_Even
datatype StopBits = StopBits_One | StopBits_Two

text \<open>
  An optional property of the object a caller passes: left out, present with the value
  \<open>undefined\<close>, or given.
\<close>

datatype 'a field = Absent | Undefined | Given 'a

text \<open>
  \<open>SerialportOptions\<close> as a caller passes it; its field \<open>path\<close> is written
  \<open>port_path\<close>.
\<close>

record SerialportOptions =
  port_path :: string
  baudRate :: int
  dataBits :: "DataBits field"
  flowControl :: "FlowControl field"
  parity :: "Parity field"
  stopBits :: "StopBits field"
  timeout :: "int field"

text \<open>
  \<open>this.options\<close>, the object the constructor stores: every property is present, an
  optional one possibly with the value \<open>undefined\<close> (\<open>None\<close>).
\<close>

record StoredOptions =
  opt_path :: string
  opt_baudRate :: int
  opt_dataBits :: "DataBits option"
  opt_flowControl :: "FlowControl option"
  opt_parity :: "Parity option"
  opt_stopBits :: "StopBits option"
  opt_timeout :: "int option"

text \<open>
  One property of the spread \<open>{ default, ...options }\<close>: a property the caller's object
  has wins, also with the value \<open>undefined\<close>; the default stays for a property left out.
\<close>

definition spreadOver :: "'a \<Rightarrow> 'a field \<Rightarrow> 'a option" where
  "spreadOver d f = (case f of Absent \<Rightarrow> Some d | Undefined \<Rightarrow> None | Given v \<Rightarrow> Some v)"

text \<open>The constructor: the literal defaults, overridden by the caller's properties.\<close>

definition SerialPort :: "SerialportOptions \<Rightarrow> StoredOptions" where
  "SerialPort options =
     \<lparr>opt_path = port_path options,
      opt_baudRate = baudRate options,
      opt_dataBits = spreadOver DataBits_Eight (dataBits options),
      opt_flowControl = spreadOver FlowControl_None (flowControl options),
      opt_parity = spreadOver Parity_None (parity options),
      opt_stopBits = spreadOver StopBits_One (stopBits options),
      opt_timeout = spreadOver 200 (timeout options)\<rparr>"

text \<open>\<open>open()\<close>: the command it invokes and the arguments it passes, field by field.\<close>

definition open_invoke :: "StoredOptions \<Rightarrow> string \<times> StoredOptions" where
  "open_invoke this =
     (''plugin:serialplugin|open'',
      \<lparr>opt_path = opt_path this, opt_baudRate = opt_baudRate this,
       opt_dataBits = opt_dataBits this, opt_flowControl = opt_flowControl this,
       opt_parity = opt_parity this, opt_stopBits = opt_stopBits this,
       opt_timeout = opt_timeout this\<rparr>)"

definition onlyPathAndBaud :: "string \<Rightarrow> int \<Rightarrow> SerialportOptions" where
  "onlyPathAndBaud p b =
     \<lparr>port_path = p, baudRate = b, dataBits = Absent, flowControl = Absent, parity = Absent,
      stopBits = Absent, timeout = Absent\<rparr>"

text \<open>
  \<open>sendDmxLevels\<close> of the lighting utilities, the call the lighting panel makes: the
  command it invokes and its two arguments, the port path and the levels. It does not go
  through \<open>SerialPort\<close> and passes no framing parameter.
\<close>

definition sendDmxLevels :: "string \<Rightarrow> int option list \<Rightarrow> string \<times> string \<times> int option list" where
  "sendDmxLevels portPath levels = (''dmx_set_levels'', portPath, levels)"

section \<open>The application state\<close>

text \<open>
  The state of \<open>App\<close> that the handlers read and write. \<open>trackRefs.current\<close> is an object
  from ids to handles; it is kept as its entry list (\<open>Object.entries\<close>), a \<open>null\<close> handle
  being \<open>None\<close>. \<open>alerts\<close> records the calls of \<open>alert\<close>, oldest first.
\<close>

record App =
  items :: "TrackData list"
  sessionName :: string
  trackRefs :: "(string \<times> AudioCard option) list"
  selectedItemId :: "string option"
  alerts :: "string list"

text \<open>\<open>trackRefs.current[id]\<close>, when it is a handle.\<close>

definition refOf :: "(string \<times> AudioCard option) list \<Rightarrow> string \<Rightarrow> AudioCard option" where
  "refOf refs i = (case map_of refs i of Some (Some h) \<Rightarrow> Some h | _ \<Rightarrow> None)"

text \<open>A method call on the handle stored under an id changes the card behind that entry.\<close>

definition onRef :: "string \<Rightarrow> (AudioCard \<Rightarrow> AudioCard) \<Rightarrow> (string \<times> AudioCard option) list
    \<Rightarrow> (string \<times> AudioCard option) list" where
  "onRef i f refs = map (\<lambda>(k, r). if k = i then (k, map_option f r) else (k, r)) refs"

definition handleUpdateTrack :: "string \<Rightarrow> TrackUpdates \<Rightarrow> App \<Rightarrow> App" where
  "handleUpdateTrack i updates s = s\<lparr>items := updateItems i updates (items s)\<rparr>"

text \<open>
  The render that follows a change of the items: \<open>App\<close> renders one card per item and
  stores its handle under the item's id, so the card stored under an id gets that item as
  its \<open>track\<close> prop (the last such item, should two items share the id), and the methods
  of its handle read the new prop. The card's own states and its element are kept.
\<close>

definition rerender :: "App \<Rightarrow> App" where
  "rerender s =
     s\<lparr>trackRefs :=
         map (\<lambda>(k, r). (k, map_option
                (\<lambda>c. case find (\<lambda>t. id' t = k) (rev (items s)) of
                        None \<Rightarrow> c
                      | Some t \<Rightarrow> c\<lparr>track := t\<rparr>) r)) (trackRefs s)\<rparr>"

text \<open>
  \<open>handlePlayRequest\<close>: without shift, every other entry whose handle reports playing is
  stopped; then the target's handle, if there is one, is played.
\<close>

definition stopOthers :: "string \<Rightarrow> (string \<times> AudioCard option) list \<Rightarrow> (string \<times> AudioCard option) list" where
  "stopOthers targetId refs =
     map (\<lambda>(k, r). case r of
            None \<Rightarrow> (k, r)
          | Some h \<Rightarrow> if k \<noteq> targetId \<and> isPlaying h then (k, Some (stop h)) else (k, r)) refs"

definition handlePlayRequest :: "string \<Rightarrow> bool \<Rightarrow> (string \<times> AudioCard option) list
    \<Rightarrow> (string \<times> AudioCard option) list" where
  "handlePlayRequest targetId shiftKey refs =
     onRef targetId play (if shiftKey then refs else stopOthers targetId refs)"

section \<open>The global key handler\<close>

datatype event_target = HTMLInputElement | HTMLTextAreaElement | OtherTarget

record KeyboardEvent =
  target :: event_target
  code :: string
  shiftKey :: bool

definition pauseAllPlaying :: "(string \<times> AudioCard option) list \<Rightarrow> (string \<times> AudioCard option) list" where
  "pauseAllPlaying refs =
     map (\<lambda>(k, r). case r of
            None \<Rightarrow> (k, r)
          | Some h \<Rightarrow> if isPlaying h then (k, Some (pause h)) else (k, r)) refs"

definition playingIds :: "(string \<times> AudioCard option) list \<Rightarrow> string list" where
  "playingIds refs =
     map fst (filter (\<lambda>(k, r). case r of None \<Rightarrow> False | Some h \<Rightarrow> isPlaying h) refs)"

definition clampVolume :: "real \<Rightarrow> real" where
  "clampVolume v = min 1 (max 0 v)"

text \<open>
  \<open>handleGlobalKeyDown\<close>. The result is the new state and whether the handler called
  \<open>e.preventDefault()\<close>. The branches are in the order of the source: the input guard, the
  space bar, the arrow keys for a selected item, comma and period, and last the lookup of
  the first audio item whose assigned key is the normalised code.
\<close>

definition handleGlobalKeyDown :: "KeyboardEvent \<Rightarrow> App \<Rightarrow> App \<times> bool" where
  "handleGlobalKeyDown e s =
     (if target e = HTMLInputElement \<or> target e = HTMLTextAreaElement then (s, False)
      else if code e = ''Space'' then (s\<lparr>trackRefs := pauseAllPlaying (trackRefs s)\<rparr>, True)
      else
        let c = normalizeCode (code e);
            selected = (case selectedItemId s of None \<Rightarrow> False | Some i \<Rightarrow> i \<noteq> [])
        in
        if selected \<and> (c = ''ArrowUp'' \<or> c = ''ArrowDown'') then
          (case find (\<lambda>i. Some (id' i) = selectedItemId s) (items s) of
             None \<Rightarrow> (s, True)
           | Some item \<Rightarrow>
               if type' item = audio then
                 let delta = (if c = ''ArrowUp'' then 0.05 else - 0.05);
                     newVol = clampVolume (volume item + delta)
                 in (handleUpdateTrack (id' item) (no_updates\<lparr>u_volume := Some newVol\<rparr>) s, True)
               else (s, True))
        else if c = ''Comma'' \<or> c = ''Period'' then
          let delta = (if c = ''Period'' then 0.05 else - 0.05);
              ids = playingIds (trackRefs s)
          in if ids \<noteq> [] then
               (s\<lparr>items := map (\<lambda>item. if id' item \<in> set ids \<and> type' item = audio
                                        then item\<lparr>volume := clampVolume (volume item + delta)\<rparr>
                                        else item) (items s)\<rparr>, True)
             else (s, False)
        else
          (case find (\<lambda>t. type' t = audio \<and> assignedKey t = Some c) (items s) of
             None \<Rightarrow> (s, False)
           | Some matchedTrack \<Rightarrow>
               (case refOf (trackRefs s) (id' matchedTrack) of
                  None \<Rightarrow> (s, True)
                | Some h \<Rightarrow>
                    if isPlaying h
                    then (s\<lparr>trackRefs := onRef (id' matchedTrack) play
                                            (onRef (id' matchedTrack) stop (trackRefs s))\<rparr>, True)
                    else (s\<lparr>trackRefs := handlePlayRequest (id' matchedTrack) (shiftKey e)
                                            (trackRefs s)\<rparr>, True))))"

text \<open>A click on the key badge of the card of clip \<open>i\<close>: the card waits for a key.\<close>

definition awaitKey :: "string \<Rightarrow> App \<Rightarrow> App" where
  "awaitKey i s = s\<lparr>trackRefs := onRef i (\<lambda>c. c\<lparr>waitingForKey := True\<rparr>) (trackRefs s)\<rparr>"

text \<open>
  The cards that wait for a key, with the ids their handles are stored under: each of them
  has a \<open>keydown\<close> listener on the window.
\<close>

definition waitingEntries :: "(string \<times> AudioCard option) list \<Rightarrow> (string \<times> AudioCard) list" where
  "waitingEntries refs =
     concat (map (\<lambda>(k, r). case r of
                    None \<Rightarrow> []
                  | Some c \<Rightarrow> if waitingForKey c then [(k, c)] else []) refs)"

definition waitingIds :: "(string \<times> AudioCard option) list \<Rightarrow> string list" where
  "waitingIds refs = map (\<lambda>(k, c). id' (track c)) (waitingEntries refs)"

text \<open>
  The listener of one waiting card runs: \<open>onUpdate\<close> is wired to \<open>handleUpdateTrack\<close> as
  \<open>App\<close> renders it, so the captured key is written into the items, and the card stops
  waiting.
\<close>

definition captureOne :: "string \<Rightarrow> string \<times> AudioCard \<Rightarrow> App \<Rightarrow> App" where
  "captureOne rawCode kc s =
     (handleUpdateTrack (fst (fst (handleKeyDown rawCode (snd kc))))
                        (snd (fst (handleKeyDown rawCode (snd kc)))) s)
       \<lparr>trackRefs := onRef (fst kc) (\<lambda>c. snd (handleKeyDown rawCode c)) (trackRefs s)\<rparr>"

text \<open>
  A \<open>keydown\<close> event on the window. The listeners of the waiting cards run, and the global
  handler is a listener of the same event: neither stops the other. The global handler
  reads the items and handles of the last render, and its item updates and the cards'
  are functional updates of different fields, so their order does not matter. Whether the
  global handler still runs when a card's listener ran first and the render it caused has
  re-registered the global one depends on the order of registration and on React's
  scheduling, which the handlers do not fix: \<open>globalRuns\<close> says so. The result is the
  state after the render, and whether a listener called \<open>e.preventDefault()\<close>.
\<close>

definition windowKeyDown :: "bool \<Rightarrow> KeyboardEvent \<Rightarrow> App \<Rightarrow> App \<times> bool" where
  "windowKeyDown globalRuns e s =
     (let g = (if globalRuns then handleGlobalKeyDown e s else (s, False));
          w = waitingEntries (trackRefs s)
      in (rerender (foldl (\<lambda>s' kc. captureOne (code e) kc s') (fst g) w), snd g \<or> w \<noteq> []))"

definition keyHolders :: "string \<Rightarrow> TrackData list \<Rightarrow> TrackData list" where
  "keyHolders k xs = filter (\<lambda>t. assignedKey t = Some k) xs"

section \<open>The decode queue\<close>

text \<open>
  The module state of the audio utilities: \<open>decodeQueue\<close>, \<open>activeDecodes\<close> and whether
  \<open>window._sharedAudioContext\<close> is set. A task is the object pushed by one call of
  \<open>decodeAudioDataSafely\<close>; it is identified by the number of that call. The other fields
  record what happened and are never read by the program: \<open>submitted\<close> counts the calls,
  \<open>started\<close> lists the tasks in the order \<open>processQueue\<close> shifted them off the queue,
  \<open>awaiting\<close> lists the tasks whose \<open>decodeAudioData\<close> promise is pending, \<open>settled\<close>
  lists the calls of \<open>task.resolve\<close> (\<open>True\<close>) and \<open>task.reject\<close> (\<open>False\<close>), and \<open>lost\<close>
  lists the tasks whose \<open>processQueue\<close> call threw before its \<open>try\<close>.
\<close>

record DecodeState =
  decodeQueue :: "nat list"
  activeDecodes :: int
  sharedAudioContext :: bool
  submitted :: nat
  started :: "nat list"
  awaiting :: "nat list"
  settled :: "(nat \<times> bool) list"
  lost :: "nat list"

definition MAX_CONCURRENT_DECODES :: int where
  "MAX_CONCURRENT_DECODES = 2"

definition initialDecodeState :: DecodeState where
  "initialDecodeState =
     \<lparr>decodeQueue = [], activeDecodes = 0, sharedAudioContext = False, submitted = 0,
      started = [], awaiting = [], settled = [], lost = []\<rparr>"

text \<open>
  \<open>getAudioContext\<close>: the shared context if there is one; otherwise a new one is
  constructed, which the platform lets succeed (\<open>ctor\<close>) or throw (\<open>None\<close>).
\<close>

definition getAudioContext :: "bool \<Rightarrow> DecodeState \<Rightarrow> DecodeState option" where
  "getAudioContext ctor s =
     (if sharedAudioContext s then Some s
      else if ctor then Some (s\<lparr>sharedAudioContext := True\<rparr>)
      else None)"

text \<open>
  \<open>processQueue\<close> up to its \<open>await\<close>: the guard, the shift, the increment, then
  \<open>getAudioContext()\<close>, which is called outside the \<open>try\<close>: if it throws, the call ends
  there, with the task off the queue and the counter incremented. Otherwise the decode is
  started and awaited.
\<close>

definition processQueue :: "bool \<Rightarrow> DecodeState \<Rightarrow> DecodeState" where
  "processQueue ctor s =
     (if activeDecodes s \<ge> MAX_CONCURRENT_DECODES \<or> decodeQueue s = [] then s
      else (case decodeQueue s of
              [] \<Rightarrow> s
            | task # rest \<Rightarrow>
                let s1 = s\<lparr>decodeQueue := rest, activeDecodes := activeDecodes s + 1,
                           started := started s @ [task]\<rparr>
                in (case getAudioContext ctor s1 of
                      None \<Rightarrow> s1\<lparr>lost := lost s1 @ [task]\<rparr>
                    | Some s2 \<Rightarrow> s2\<lparr>awaiting := awaiting s2 @ [task]\<rparr>)))"

text \<open>
  \<open>processQueue\<close> after its \<open>await\<close>, when the decode of \<open>task\<close> has resolved (\<open>ok\<close>) or
  rejected: the task's callback, then the \<open>finally\<close> block.
\<close>

definition resume :: "bool \<Rightarrow> nat \<Rightarrow> bool \<Rightarrow> DecodeState \<Rightarrow> DecodeState" where
  "resume ctor task ok s =
     processQueue ctor
       (s\<lparr>settled := settled s @ [(task, ok)],
          awaiting := remove1 task (awaiting s),
          activeDecodes := activeDecodes s - 1\<rparr>)"

text \<open>\<open>decodeAudioDataSafely\<close>: the promise executor pushes the task and calls \<open>processQueue\<close>.\<close>

definition decodeAudioDataSafely :: "bool \<Rightarrow> DecodeState \<Rightarrow> DecodeState" where
  "decodeAudioDataSafely ctor s =
     processQueue ctor
       (s\<lparr>decodeQueue := decodeQueue s @ [submitted s], submitted := Suc (submitted s)\<rparr>)"

text \<open>
  What can happen to the queue: a submission, or the decode of a task settling. A decode
  settles only while its promise is pending. Each event says whether the platform would
  let a context be constructed during it.
\<close>

datatype decode_event = Submit bool | Settle nat bool bool

fun decodeStep :: "decode_event \<Rightarrow> DecodeState \<Rightarrow> DecodeState" where
  "decodeStep (Submit ctor) s = decodeAudioDataSafely ctor s"
| "decodeStep (Settle task ok ctor) s =
     (if task \<in> set (awaiting s) then resume ctor task ok s else s)"

fun decodeRun :: "decode_event list \<Rightarrow> DecodeState \<Rightarrow> DecodeState" where
  "decodeRun [] s = s"
| "decodeRun (e # es) s = decodeRun es (decodeStep e s)"

fun isSubmit :: "decode_event \<Rightarrow> bool" where
  "isSubmit (Submit _) = True"
| "isSubmit (Settle _ _ _) = False"

text \<open>
  Nothing more is submitted and the pending decodes settle one after the other, the oldest
  first, each with the outcome \<open>ok\<close>, until none is pending.
\<close>

function drain :: "bool \<Rightarrow> bool \<Rightarrow> DecodeState \<Rightarrow> DecodeState" where
  "drain ctor ok s =
     (case awaiting s of [] \<Rightarrow> s | task # _ \<Rightarrow> drain ctor ok (resume ctor task ok s))"
  by pat_completeness auto
termination
  by (relation "measure (\<lambda>(ctor, ok, s). 2 * length (decodeQueue s) + length (awaiting s))")
     (auto simp: resume_def processQueue_def getAudioContext_def Let_def split: list.splits)

text \<open>
  The invariant of the queue: the counter is the number of pending decodes and lost
  tasks, at most two; a task waits only while the counter is two; the started tasks
  followed by the waiting ones are the submissions in order; a started task is pending,
  settled or lost; a decode is pending only once the shared context exists.
\<close>

definition decodeInv :: "DecodeState \<Rightarrow> bool" where
  "decodeInv s =
     (activeDecodes s = int (length (awaiting s) + length (lost s))
      \<and> length (awaiting s) + length (lost s) \<le> 2
      \<and> (decodeQueue s = [] \<or> length (awaiting s) + length (lost s) = 2)
      \<and> started s @ decodeQueue s = [0..<submitted s]
      \<and> mset (started s) = mset (map fst (settled s)) + mset (awaiting s) + mset (lost s)
      \<and> (awaiting s = [] \<or> sharedAudioContext s))"

section \<open>The lighting panel\<close>

text \<open>
  A JavaScript array of numbers, with its holes: \<open>None\<close> is a hole (read as
  \<open>undefined\<close>). Reading outside the array gives \<open>undefined\<close>. Writing at an index
  inside the array replaces the element; writing at or beyond the length extends the array,
  leaving holes; writing at a negative index sets a property and leaves the elements and
  the length as they are. Channel numbers and levels are taken to be integers.
\<close>

definition arrayGet :: "'a option list \<Rightarrow> int \<Rightarrow> 'a option" where
  "arrayGet xs i = (if 0 \<le> i \<and> i < int (length xs) then xs ! nat i else None)"

definition arraySet :: "'a option list \<Rightarrow> int \<Rightarrow> 'a \<Rightarrow> 'a option list" where
  "arraySet xs i v =
     (if i < 0 then xs
      else if i < int (length xs) then xs[nat i := Some v]
      else xs @ replicate (nat i - length xs) None @ [Some v])"

definition createEmptyLevels :: "int option list" where
  "createEmptyLevels = replicate 512 (Some 0)"

record DmxPanel =
  dmxLevels :: "int option list"
  selectedChannel :: int

definition initialDmxPanel :: DmxPanel where
  "initialDmxPanel = \<lparr>dmxLevels = createEmptyLevels, selectedChannel = 1\<rparr>"

definition selectedValue :: "DmxPanel \<Rightarrow> int" where
  "selectedValue p =
     (case arrayGet (dmxLevels p) (selectedChannel p - 1) of None \<Rightarrow> 0 | Some v \<Rightarrow> v)"

definition handleChannelChange :: "int \<Rightarrow> DmxPanel \<Rightarrow> DmxPanel" where
  "handleChannelChange v p = p\<lparr>selectedChannel := min 512 (max 1 v)\<rparr>"

definition handleLevelChange :: "int \<Rightarrow> DmxPanel \<Rightarrow> DmxPanel" where
  "handleLevelChange v p =
     p\<lparr>dmxLevels := arraySet (dmxLevels p) (selectedChannel p - 1) (min 255 (max 0 v))\<rparr>"

definition applyToAll :: "DmxPanel \<Rightarrow> DmxPanel" where
  "applyToAll p = p\<lparr>dmxLevels := map (\<lambda>_. Some (selectedValue p)) (dmxLevels p)\<rparr>"

text \<open>
  A channel write \<open>setChannel(index, value)\<close> is the two handlers in turn: select the
  channel, then set its level.
\<close>

definition setChannel :: "int \<Rightarrow> int \<Rightarrow> DmxPanel \<Rightarrow> DmxPanel" where
  "setChannel index v p = handleLevelChange v (handleChannelChange index p)"

datatype panel_event = ChannelChange int | LevelChange int | ApplyToAll

fun panelStep :: "panel_event \<Rightarrow> DmxPanel \<Rightarrow> DmxPanel" where
  "panelStep (ChannelChange v) p = handleChannelChange v p"
| "panelStep (LevelChange v) p = handleLevelChange v p"
| "panelStep ApplyToAll p = applyToAll p"

fun panelRun :: "panel_event list \<Rightarrow> DmxPanel \<Rightarrow> DmxPanel" where
  "panelRun [] p = p"
| "panelRun (e # es) p = panelRun es (panelStep e p)"

text \<open>A level is a number from 0 to 255, not a hole.\<close>

definition levelOk :: "int option \<Rightarrow> bool" where
  "levelOk x = (case x of None \<Rightarrow> False | Some c \<Rightarrow> 0 \<le> c \<and> c \<le> 255)"

definition panelInv :: "DmxPanel \<Rightarrow> bool" where
  "panelInv p =
     (length (dmxLevels p) = 512 \<and> 1 \<le> selectedChannel p \<and> selectedChannel p \<le> 512
      \<and> list_all levelOk (dmxLevels p))"

section \<open>The session loader\<close>

text \<open>
  The session document after \<open>JSON.parse\<close>, typed as the loader reads it: a field the
  loader guards with \<open>??\<close>, \<open>||\<close> or a conditional may be absent (\<open>None\<close>: missing or
  \<open>null\<close>); an item's \<open>name\<close> is copied unguarded. A parsed value outside this type (\<open>null\<close>,
  items that are not an array of objects) is not covered: there the loader throws into its
  \<open>catch\<close>.
\<close>

record SavedSessionTrack =
  s_id :: "string option"
  s_name :: string
  s_volume :: "real option"
  s_startPoint :: "real option"
  s_isLooping :: "bool option"
  s_assignedKey :: "string option"
  s_path :: "string option"

record SavedSession =
  ss_name :: "string option"
  ss_items :: "SavedSessionTrack list option"

text \<open>
  One reconstructed item. \<open>convertFileSrc\<close> is the platform's function; \<open>fresh\<close> is the
  id \<open>generateId()\<close> returns if it is called for this item. \<open>||\<close> and the conditional
  also take the empty string for absent.
\<close>

definition reconstruct :: "(string \<Rightarrow> string) \<Rightarrow> string \<Rightarrow> SavedSessionTrack \<Rightarrow> TrackData" where
  "reconstruct convertFileSrc fresh item =
     \<lparr>id' = (case s_id item of None \<Rightarrow> fresh | Some i \<Rightarrow> if i = [] then fresh else i),
      type' = audio,
      name = s_name item,
      fileUrl = (case s_path item of None \<Rightarrow> [] | Some p \<Rightarrow> if p = [] then [] else convertFileSrc p),
      volume = (case s_volume item of None \<Rightarrow> 0.8 | Some v \<Rightarrow> v),
      startPoint = (case s_startPoint item of None \<Rightarrow> 0 | Some v \<Rightarrow> v),
      isLooping = (case s_isLooping item of None \<Rightarrow> False | Some v \<Rightarrow> v),
      assignedKey = s_assignedKey item,
      duration = 0,
      path = s_path item\<rparr>"

text \<open>
  What the loader gets from the dialog and the file: nothing picked, an exception (from the
  dialog, the read or the parse), or a parsed document.
\<close>

datatype load_input = Cancelled | Threw | Parsed SavedSession

definition handleLoadSession ::
    "(string \<Rightarrow> string) \<Rightarrow> (nat \<Rightarrow> string) \<Rightarrow> load_input \<Rightarrow> App \<Rightarrow> App" where
  "handleLoadSession convertFileSrc generateId input s =
     (case input of
        Cancelled \<Rightarrow> s
      | Threw \<Rightarrow> s\<lparr>alerts := alerts s @ [''Failed to load session.'']\<rparr>
      | Parsed session \<Rightarrow>
          let s1 = s\<lparr>sessionName := (case ss_name session of
                                        None \<Rightarrow> ''Loaded Session''
                                      | Some n \<Rightarrow> if n = [] then ''Loaded Session'' else n)\<rparr>
          in (case ss_items session of
                Some savedItems \<Rightarrow>
                  s1\<lparr>items := map (\<lambda>(k, item). reconstruct convertFileSrc (generateId k) item)
                                  (enumerate 0 savedItems)\<rparr>
              | None \<Rightarrow>
                  s1\<lparr>alerts := alerts s1 @ [''Legacy session format. Some data might be missing.'']\<rparr>))"

section \<open>Setting the start point\<close>



section \<open>Example states\<close>

text \<open>Concrete clips, cards, application states and key events, used to evaluate the model.\<close>

definition exampleTrack :: "string \<Rightarrow> string option \<Rightarrow> real \<Rightarrow> TrackData" where
  "exampleTrack i k sp =
     \<lparr>id' = i, type' = audio, name = i, fileUrl = [], volume = 0.8, startPoint = sp,
      isLooping = False, assignedKey = k, duration = 10, path = None\<rparr>"

definition exampleCard :: "TrackData \<Rightarrow> bool \<Rightarrow> real \<Rightarrow> AudioCard" where
  "exampleCard t playing time =
     \<lparr>track = t, audioRef = Some \<lparr>el_currentTime = time, el_paused = \<not> playing\<rparr>,
      isPlaying = playing, currentTime = time, card_duration = 10, waitingForKey = False,
      isScrubbing = False\<rparr>"

definition exampleApp :: "(TrackData \<times> bool \<times> real) list \<Rightarrow> App" where
  "exampleApp cs =
     \<lparr>items = map fst cs, sessionName = ''My Set'',
      trackRefs = map (\<lambda>(t, playing, time). (id' t, Some (exampleCard t playing time))) cs,
      selectedItemId = None, alerts = []\<rparr>"

definition exampleKey :: "event_target \<Rightarrow> string \<Rightarrow> bool \<Rightarrow> KeyboardEvent" where
  "exampleKey tg c sh = \<lparr>target = tg, code = c, shiftKey = sh\<rparr>"

text \<open>The playhead and the play state of the card stored under an id, when there is one.\<close>

definition playheadOf :: "(string \<times> AudioCard option) list \<Rightarrow> string \<Rightarrow> real option" where
  "playheadOf refs i = Option.bind (refOf refs i) (\<lambda>h. map_option el_currentTime (audioRef h))"

definition playingOf :: "(string \<times> AudioCard option) list \<Rightarrow> string \<Rightarrow> bool option" where
  "playingOf refs i = map_option isPlaying (refOf refs i)"

definition exampleEvents :: "decode_event list" where
  "exampleEvents =
     [Submit True, Submit True, Submit True, Submit True, Submit True, Settle 1 False True]"

definition exampleDecodeState :: DecodeState where
  "exampleDecodeState =
     \<lparr>decodeQueue = [3, 4], activeDecodes = 2, sharedAudioContext = True, submitted = 5,
      started = [0, 1, 2], awaiting = [0, 2], settled = [(1, False)], lost = []\<rparr>"




definition exampleSavedTrack :: SavedSessionTrack where
  "exampleSavedTrack =
     \<lparr>s_id = Some ''t1'', s_name = ''Kick'', s_volume = None, s_startPoint = None,
      s_isLooping = None, s_assignedKey = None, s_path = None\<rparr>"

section \<open>Theorems\<close>

subsection \<open>Lookups in the handle table\<close>

lemma item_type_audio: "(x :: item_type) = audio"
  by (cases x)

lemma map_of_keyed:
  "map_of (map (\<lambda>(k, r). (k, g k r)) refs) i = map_option (g i) (map_of refs i)"
  by (induction refs) auto

lemma onRef_keyed:
  "onRef i f refs = map (\<lambda>(k, r). (k, (\<lambda>k r. if k = i then map_option f r else r) k r)) refs"
  by (auto simp: onRef_def)

lemma refOf_onRef:
  "refOf (onRef i f refs) k = (if k = i then map_option f (refOf refs k) else refOf refs k)"
  unfolding onRef_keyed
  by (auto simp: refOf_def map_of_keyed split: option.splits)

lemma map_of_onRef_other: "k \<noteq> i \<Longrightarrow> map_of (onRef i f refs) k = map_of refs k"
  unfolding onRef_keyed
  by (simp add: map_of_keyed option.map_ident)

lemma refOf_stopOthers:
  "refOf (stopOthers t refs) k =
     map_option (\<lambda>h. if k \<noteq> t \<and> isPlaying h then stop h else h) (refOf refs k)"
proof -
  have "stopOthers t refs =
      map (\<lambda>(k, r). (k, (\<lambda>k r. case r of None \<Rightarrow> None
                              | Some h \<Rightarrow> if k \<noteq> t \<and> isPlaying h then Some (stop h) else Some h) k r)) refs"
    by (auto simp: stopOthers_def split: option.splits)
  then show ?thesis
    by (auto simp: refOf_def map_of_keyed split: option.splits)
qed

lemma refOf_handlePlayRequest:
  "refOf (handlePlayRequest t sh refs) k =
     (if k = t then map_option play (refOf refs k)
      else if sh then refOf refs k
      else map_option (\<lambda>h. if isPlaying h then stop h else h) (refOf refs k))"
  by (simp add: handlePlayRequest_def refOf_onRef refOf_stopOthers option.map_ident)

subsection \<open>The handle's methods on a mounted element\<close>

lemma stop_facts:
  "audioRef h = Some a \<Longrightarrow>
     stop h = h\<lparr>audioRef := Some \<lparr>el_currentTime = startPoint (track h), el_paused = True\<rparr>,
                isPlaying := False\<rparr>"
  by (simp add: stop_def)

lemma play_stop:
  "audioRef h = Some a \<Longrightarrow>
     play (stop h) = h\<lparr>audioRef := Some \<lparr>el_currentTime = startPoint (track h), el_paused = False\<rparr>,
                       isPlaying := True\<rparr>"
  by (simp add: stop_def play_def)

lemma play_paused:
  "audioRef h = Some a \<Longrightarrow> el_paused a \<Longrightarrow>
     play h = h\<lparr>audioRef := Some \<lparr>el_currentTime = max (el_currentTime a) (startPoint (track h)),
                                   el_paused = False\<rparr>, isPlaying := True\<rparr>"
  by (simp add: play_def max_def)

subsection \<open>The lookup branch of the key handler\<close>

text \<open>
  A key press reaches the clip lookup when its target is not a text field and no earlier
  branch takes it; the handler then acts on the first audio item bound to the code.
\<close>

lemma lookup_branch:
  assumes "target e = OtherTarget" "code e \<noteq> ''Space''"
    and "normalizeCode (code e) \<noteq> ''Comma''" "normalizeCode (code e) \<noteq> ''Period''"
    and "selectedItemId s = None \<or> selectedItemId s = Some []
         \<or> (normalizeCode (code e) \<noteq> ''ArrowUp'' \<and> normalizeCode (code e) \<noteq> ''ArrowDown'')"
    and "find (\<lambda>t. type' t = audio \<and> assignedKey t = Some (normalizeCode (code e))) (items s) = Some m"
    and "refOf (trackRefs s) (id' m) = Some h"
  shows "handleGlobalKeyDown e s =
     (s\<lparr>trackRefs := (if isPlaying h then onRef (id' m) play (onRef (id' m) stop (trackRefs s))
                        else handlePlayRequest (id' m) (shiftKey e) (trackRefs s))\<rparr>, True)"
  using assms
  by (auto simp: handleGlobalKeyDown_def Let_def split: option.splits)

lemma updateItems_assignedKey:
  "updateItems b (no_updates\<lparr>u_assignedKey := Some k\<rparr>) xs =
     map (\<lambda>t. if id' t = b then t\<lparr>assignedKey := k\<rparr> else t) xs"
  by (simp add: updateItems_def spread_def no_updates_def item_type_audio)

lemmas example_defs =
  exampleTrack_def exampleCard_def exampleApp_def exampleKey_def playheadOf_def playingOf_def
  refOf_def onRef_def handleGlobalKeyDown_def handlePlayRequest_def stopOthers_def
  normalizeCode_def startsWith_def hasDigit_def stop_def play_def Let_def

subsection \<open>Key assignment\<close>

lemma items_rerender: "items (rerender s) = items s"
  by (simp add: rerender_def)

lemma items_captureOne:
  "items (captureOne raw kc s) =
     map (\<lambda>t. if id' t = id' (track (snd kc)) then t\<lparr>assignedKey := Some (normalizeCode raw)\<rparr> else t)
       (items s)"
  by (simp add: captureOne_def handleKeyDown_def handleUpdateTrack_def updateItems_assignedKey)

lemma items_capture_all:
  "items (foldl (\<lambda>s' kc. captureOne raw kc s') s w) =
     map (\<lambda>t. if id' t \<in> set (map (\<lambda>(k, c). id' (track c)) w)
              then t\<lparr>assignedKey := Some (normalizeCode raw)\<rparr> else t) (items s)"
proof (induction w arbitrary: s)
  case Nil
  then show ?case by simp
next
  case (Cons kc w)
  show ?case
    by (cases kc) (auto simp: Cons.IH items_captureOne)
qed

lemma keys_handleGlobalKeyDown:
  "map assignedKey (items (fst (handleGlobalKeyDown e s))) = map assignedKey (items s)
   \<and> map id' (items (fst (handleGlobalKeyDown e s))) = map id' (items s)"
  by (auto simp: handleGlobalKeyDown_def Let_def handleUpdateTrack_def updateItems_def
      spread_def no_updates_def split: option.splits)

lemma keys_after_capture:
  "map assignedKey (map (\<lambda>t. if id' t \<in> W then t\<lparr>assignedKey := k\<rparr> else t) xs) =
     map (\<lambda>t. if id' t \<in> W then k else assignedKey t) xs"
  by (induction xs) auto

lemma ids_after_capture:
  "map id' (map (\<lambda>t. if id' t \<in> W then t\<lparr>assignedKey := k\<rparr> else t) xs) = map id' xs"
  by (induction xs) auto

lemma same_keys:
  "map id' xs = map id' ys \<Longrightarrow> map assignedKey xs = map assignedKey ys \<Longrightarrow>
     map (\<lambda>t. if id' t \<in> W then k else assignedKey t) xs =
     map (\<lambda>t. if id' t \<in> W then k else assignedKey t) ys"
proof (induction xs arbitrary: ys)
  case Nil
  then show ?case by simp
next
  case (Cons x xs)
  then show ?case by (cases ys) auto
qed

text \<open>
  C1, the claim as stated: after a key is captured for clip B, at most one clip has it as
  its assigned key. Clip \<open>a\<close> holds \<open>KeyQ\<close>; the card of clip \<open>b\<close> waits for a key and
  \<open>KeyQ\<close> is pressed: two clips hold \<open>KeyQ\<close>, whether or not the global handler runs too.
\<close>

theorem assignKey_unique_counterexample:
  "\<not> length (keyHolders ''KeyQ''
        (items (fst (windowKeyDown True (exampleKey OtherTarget ''KeyQ'' False)
           (awaitKey ''b'' (exampleApp [(exampleTrack ''a'' (Some ''KeyQ'') 0, False, 0),
                                        (exampleTrack ''b'' None 0, False, 0)])))))) \<le> 1
   \<and> \<not> length (keyHolders ''KeyQ''
        (items (fst (windowKeyDown False (exampleKey OtherTarget ''KeyQ'' False)
           (awaitKey ''b'' (exampleApp [(exampleTrack ''a'' (Some ''KeyQ'') 0, False, 0),
                                        (exampleTrack ''b'' None 0, False, 0)])))))) \<le> 1"
  by (simp add: windowKeyDown_def items_rerender items_captureOne waitingEntries_def
      awaitKey_def keyHolders_def example_defs)

text \<open>
  C1, amended: a key press while the card of clip B waits for a key sets the assigned
  key of B (of every clip whose card waits) to the normalised code and leaves the assigned
  key of every other clip as it was; a clip A that held the key before still holds it, so
  several clips can share a key. No clip is added, removed or renamed. The global key
  handler is a listener of the same key press: when it does not run, no other field of
  any item changes; when it runs, the press has its effect as well (it can change volumes
  and play states), but it changes no assigned key.
\<close>

theorem assignKey_last_write:
  "map assignedKey (items (fst (windowKeyDown g e s))) =
     map (\<lambda>t. if id' t \<in> set (waitingIds (trackRefs s))
              then Some (normalizeCode (code e)) else assignedKey t) (items s)
   \<and> map id' (items (fst (windowKeyDown g e s))) = map id' (items s)
   \<and> items (fst (windowKeyDown False e s)) =
       map (\<lambda>t. if id' t \<in> set (waitingIds (trackRefs s))
                then t\<lparr>assignedKey := Some (normalizeCode (code e))\<rparr> else t) (items s)
   \<and> items (fst (windowKeyDown True e s)) =
       map (\<lambda>t. if id' t \<in> set (waitingIds (trackRefs s))
                then t\<lparr>assignedKey := Some (normalizeCode (code e))\<rparr> else t)
         (items (fst (handleGlobalKeyDown e s)))"
proof -
  have it: "\<And>g. items (fst (windowKeyDown g e s)) =
       map (\<lambda>t. if id' t \<in> set (waitingIds (trackRefs s))
                then t\<lparr>assignedKey := Some (normalizeCode (code e))\<rparr> else t)
         (items (if g then fst (handleGlobalKeyDown e s) else s))"
    by (simp add: windowKeyDown_def Let_def items_rerender items_capture_all waitingIds_def)
  have k: "\<And>g. map assignedKey (items (if g then fst (handleGlobalKeyDown e s) else s))
        = map assignedKey (items s)
      \<and> map id' (items (if g then fst (handleGlobalKeyDown e s) else s)) = map id' (items s)"
    using keys_handleGlobalKeyDown[of e s] by simp
  have a: "map assignedKey (items (fst (windowKeyDown g e s))) =
     map (\<lambda>t. if id' t \<in> set (waitingIds (trackRefs s))
              then Some (normalizeCode (code e)) else assignedKey t) (items s)"
  proof -
    have "map assignedKey (items (fst (windowKeyDown g e s))) =
        map (\<lambda>t. if id' t \<in> set (waitingIds (trackRefs s))
                 then Some (normalizeCode (code e)) else assignedKey t)
          (items (if g then fst (handleGlobalKeyDown e s) else s))"
      unfolding it by (rule keys_after_capture)
    also have "\<dots> = map (\<lambda>t. if id' t \<in> set (waitingIds (trackRefs s))
              then Some (normalizeCode (code e)) else assignedKey t) (items s)"
      using k[of g] by (intro same_keys) simp_all
    finally show ?thesis .
  qed
  have b: "map id' (items (fst (windowKeyDown g e s))) = map id' (items s)"
  proof -
    have "map id' (items (fst (windowKeyDown g e s)))
        = map id' (items (if g then fst (handleGlobalKeyDown e s) else s))"
      unfolding it by (rule ids_after_capture)
    then show ?thesis using k[of g] by simp
  qed
  from a b it[of False] it[of True] show ?thesis
    by simp
qed

theorem assignKey_last_write_witness:
  "waitingIds (trackRefs (awaitKey ''b''
       (exampleApp [(exampleTrack ''a'' (Some ''Digit1'') 0, True, 5),
                    (exampleTrack ''b'' None 0, False, 0)]))) = [''b'']
   \<and> map assignedKey (items (fst (windowKeyDown True (exampleKey OtherTarget ''Numpad1'' False)
        (awaitKey ''b'' (exampleApp [(exampleTrack ''a'' (Some ''Digit1'') 0, True, 5),
                                     (exampleTrack ''b'' None 0, False, 0)])))))
       = [Some ''Digit1'', Some ''Digit1'']
   \<and> items (fst (windowKeyDown False (exampleKey OtherTarget ''Period'' False)
        (awaitKey ''b'' (exampleApp [(exampleTrack ''a'' (Some ''Digit1'') 0, True, 5),
                                     (exampleTrack ''b'' None 0, False, 0)]))))
       = [exampleTrack ''a'' (Some ''Digit1'') 0, exampleTrack ''b'' (Some ''Period'') 0]
   \<and> map volume (items (fst (windowKeyDown True (exampleKey OtherTarget ''Period'' False)
        (awaitKey ''b'' (exampleApp [(exampleTrack ''a'' (Some ''Digit1'') 0, True, 5),
                                     (exampleTrack ''b'' None 0, False, 0)])))))
       = [0.85, 0.8]
   \<and> map assignedKey (items (fst (windowKeyDown True (exampleKey OtherTarget ''Period'' False)
        (awaitKey ''b'' (exampleApp [(exampleTrack ''a'' (Some ''Digit1'') 0, True, 5),
                                     (exampleTrack ''b'' None 0, False, 0)])))))
       = [Some ''Digit1'', Some ''Period'']"
proof -
  let ?s = "awaitKey ''b'' (exampleApp [(exampleTrack ''a'' (Some ''Digit1'') 0, True, 5),
                                        (exampleTrack ''b'' None 0, False, 0)])"
  have w: "waitingIds (trackRefs ?s) = [''b'']"
    by (simp add: waitingIds_def waitingEntries_def awaitKey_def example_defs)
  have i: "items ?s = [exampleTrack ''a'' (Some ''Digit1'') 0, exampleTrack ''b'' None 0]"
    by (simp add: awaitKey_def exampleApp_def)
  have n: "normalizeCode (code (exampleKey OtherTarget ''Numpad1'' False)) = ''Digit1''"
    "normalizeCode (code (exampleKey OtherTarget ''Period'' False)) = ''Period''"
    by (simp_all add: exampleKey_def normalizeCode_def startsWith_def hasDigit_def)
  have g: "items (fst (handleGlobalKeyDown (exampleKey OtherTarget ''Period'' False) ?s))
      = [(exampleTrack ''a'' (Some ''Digit1'') 0)\<lparr>volume := 0.85\<rparr>, exampleTrack ''b'' None 0]"
    by (simp add: awaitKey_def playingIds_def clampVolume_def example_defs)
  note t1 = assignKey_last_write[of True "exampleKey OtherTarget ''Numpad1'' False" ?s]
  note t2 = assignKey_last_write[of True "exampleKey OtherTarget ''Period'' False" ?s]
  from t1[THEN conjunct1] have a: "map assignedKey (items (fst (windowKeyDown True
        (exampleKey OtherTarget ''Numpad1'' False) ?s))) = [Some ''Digit1'', Some ''Digit1'']"
    unfolding w n i by (simp add: exampleTrack_def)
  from t2[THEN conjunct2, THEN conjunct2, THEN conjunct1]
  have b: "items (fst (windowKeyDown False (exampleKey OtherTarget ''Period'' False) ?s))
       = [exampleTrack ''a'' (Some ''Digit1'') 0, exampleTrack ''b'' (Some ''Period'') 0]"
    unfolding w n i by (simp add: exampleTrack_def)
  from t2[THEN conjunct2, THEN conjunct2, THEN conjunct2]
  have c: "items (fst (windowKeyDown True (exampleKey OtherTarget ''Period'' False) ?s))
       = [(exampleTrack ''a'' (Some ''Digit1'') 0)\<lparr>volume := 0.85\<rparr>,
          exampleTrack ''b'' (Some ''Period'') 0]"
    unfolding w n g by (simp add: exampleTrack_def)
  show ?thesis
    unfolding w a b c by (simp add: exampleTrack_def)
qed

subsection \<open>The input guard\<close>

text \<open>
  C9: a key event whose target is a text input or a textarea makes the global key handler
  return at once: the whole application state (items, volumes, handles and their play
  states, selection, session name) is unchanged and the default action is not prevented.
\<close>

theorem input_guard:
  "target e = HTMLInputElement \<or> target e = HTMLTextAreaElement \<Longrightarrow>
   handleGlobalKeyDown e s = (s, False)"
  by (simp add: handleGlobalKeyDown_def)

theorem input_guard_witness:
  "target (exampleKey HTMLInputElement ''Space'' False) = HTMLInputElement
   \<and> handleGlobalKeyDown (exampleKey HTMLInputElement ''Space'' False)
       (exampleApp [(exampleTrack ''a'' (Some ''KeyQ'') 0, True, 5)])
     = (exampleApp [(exampleTrack ''a'' (Some ''KeyQ'') 0, True, 5)], False)"
proof -
  have h: "target (exampleKey HTMLInputElement ''Space'' False) = HTMLInputElement
      \<or> target (exampleKey HTMLInputElement ''Space'' False) = HTMLTextAreaElement"
    by (simp add: exampleKey_def)
  from input_guard[OF h] show ?thesis
    by (simp add: exampleKey_def)
qed

subsection \<open>Triggering\<close>

text \<open>
  C3, the claim as stated: pressing a playing clip's own key restarts it and it is never
  merely paused. A clip whose assigned key is \<open>Space\<close> is paused by its own key: it is no
  longer playing and its playhead stays at 5, not at its start point 2.
\<close>

theorem retrigger_counterexample:
  "\<not> (playingOf (trackRefs (fst (handleGlobalKeyDown (exampleKey OtherTarget ''Space'' False)
          (exampleApp [(exampleTrack ''a'' (Some ''Space'') 2, True, 5)])))) ''a'' = Some True
      \<and> playheadOf (trackRefs (fst (handleGlobalKeyDown (exampleKey OtherTarget ''Space'' False)
          (exampleApp [(exampleTrack ''a'' (Some ''Space'') 2, True, 5)])))) ''a'' = Some 2)"
  by (simp add: pauseAllPlaying_def pause_def example_defs)

text \<open>
  C3, amended: when a key press reaches the clip lookup (its target is not a text field;
  its code is not \<open>Space\<close>; its normalised code is not \<open>Comma\<close> or \<open>Period\<close>, and not
  \<open>ArrowUp\<close> or \<open>ArrowDown\<close> while a clip is selected) and the first clip in list order
  bound to the code is playing, with or without shift the handler calls \<open>stop\<close> then
  \<open>play\<close> on that clip: its playhead is its start point, it is playing, and no other
  handle and no item changes.
\<close>

theorem retrigger_restarts:
  assumes "target e = OtherTarget" "code e \<noteq> ''Space''"
    and "normalizeCode (code e) \<noteq> ''Comma''" "normalizeCode (code e) \<noteq> ''Period''"
    and "selectedItemId s = None \<or> selectedItemId s = Some []
         \<or> (normalizeCode (code e) \<noteq> ''ArrowUp'' \<and> normalizeCode (code e) \<noteq> ''ArrowDown'')"
    and "find (\<lambda>t. type' t = audio \<and> assignedKey t = Some (normalizeCode (code e))) (items s) = Some m"
    and "refOf (trackRefs s) (id' m) = Some h" "isPlaying h" "audioRef h = Some a"
  shows "handleGlobalKeyDown e s = (s\<lparr>trackRefs := onRef (id' m) (play \<circ> stop) (trackRefs s)\<rparr>, True)
     \<and> refOf (trackRefs (fst (handleGlobalKeyDown e s))) (id' m) =
         Some (h\<lparr>audioRef := Some \<lparr>el_currentTime = startPoint (track h), el_paused = False\<rparr>,
                 isPlaying := True\<rparr>)
     \<and> (\<forall>k. k \<noteq> id' m \<longrightarrow> map_of (trackRefs (fst (handleGlobalKeyDown e s))) k = map_of (trackRefs s) k)
     \<and> items (fst (handleGlobalKeyDown e s)) = items s"
proof -
  have comp: "onRef (id' m) play (onRef (id' m) stop (trackRefs s)) = onRef (id' m) (play \<circ> stop) (trackRefs s)"
    by (auto simp: onRef_def option.map_comp)
  have eq: "handleGlobalKeyDown e s = (s\<lparr>trackRefs := onRef (id' m) (play \<circ> stop) (trackRefs s)\<rparr>, True)"
    using lookup_branch[OF assms(1-7)] assms(8) comp by simp
  show ?thesis
    using assms(7,9) by (simp add: eq refOf_onRef play_stop map_of_onRef_other)
qed

theorem retrigger_restarts_witness:
  "normalizeCode (code (exampleKey OtherTarget ''Numpad1'' True)) = ''Digit1''
   \<and> playingOf (trackRefs (exampleApp [(exampleTrack ''a'' (Some ''Digit1'') 2, True, 5)])) ''a''
       = Some True
   \<and> playheadOf (trackRefs (exampleApp [(exampleTrack ''a'' (Some ''Digit1'') 2, True, 5)])) ''a''
       = Some 5
   \<and> playingOf (trackRefs (fst (handleGlobalKeyDown (exampleKey OtherTarget ''Numpad1'' True)
        (exampleApp [(exampleTrack ''a'' (Some ''Digit1'') 2, True, 5)])))) ''a'' = Some True
   \<and> playheadOf (trackRefs (fst (handleGlobalKeyDown (exampleKey OtherTarget ''Numpad1'' True)
        (exampleApp [(exampleTrack ''a'' (Some ''Digit1'') 2, True, 5)])))) ''a'' = Some 2"
proof -
  let ?e = "exampleKey OtherTarget ''Numpad1'' True"
  let ?m = "exampleTrack ''a'' (Some ''Digit1'') 2"
  let ?s = "exampleApp [(?m, True, 5)]"
  let ?h = "exampleCard ?m True 5"
  have n: "normalizeCode (code ?e) = ''Digit1''"
    by (simp add: exampleKey_def normalizeCode_def startsWith_def hasDigit_def)
  have h1: "target ?e = OtherTarget" and h2: "code ?e \<noteq> ''Space''"
    by (simp_all add: exampleKey_def)
  have h3: "normalizeCode (code ?e) \<noteq> ''Comma''" and h4: "normalizeCode (code ?e) \<noteq> ''Period''"
    by (simp_all add: n)
  have h5: "selectedItemId ?s = None \<or> selectedItemId ?s = Some []
      \<or> (normalizeCode (code ?e) \<noteq> ''ArrowUp'' \<and> normalizeCode (code ?e) \<noteq> ''ArrowDown'')"
    by (simp add: exampleApp_def)
  have h6: "find (\<lambda>t. type' t = audio \<and> assignedKey t = Some (normalizeCode (code ?e))) (items ?s)
      = Some ?m"
    by (simp add: n exampleApp_def exampleTrack_def)
  have h7: "refOf (trackRefs ?s) (id' ?m) = Some ?h"
    by (simp add: exampleApp_def exampleTrack_def refOf_def)
  have h8: "isPlaying ?h"
    and h9: "audioRef ?h = Some \<lparr>el_currentTime = 5, el_paused = False\<rparr>"
    by (simp_all add: exampleCard_def)
  note r = retrigger_restarts[OF h1 h2 h3 h4 h5 h6 h7 h8 h9]
  have after: "refOf (trackRefs (fst (handleGlobalKeyDown ?e ?s))) ''a'' =
      Some (?h\<lparr>audioRef := Some \<lparr>el_currentTime = 2, el_paused = False\<rparr>, isPlaying := True\<rparr>)"
    using r[THEN conjunct2, THEN conjunct1] by (simp add: exampleTrack_def exampleCard_def)
  have before: "refOf (trackRefs ?s) ''a'' = Some ?h"
    using h7 by (simp add: exampleTrack_def)
  show ?thesis
    unfolding playingOf_def playheadOf_def after before n
    by (simp add: exampleCard_def)
qed

text \<open>
  C2, the claim as stated: with A playing and B stopped and bound to the pressed key, a
  press without shift leaves A stopped and B playing. Clips \<open>a\<close> and \<open>b\<close> are both bound to
  \<open>KeyQ\<close>, \<open>a\<close> first in the list and playing: the press restarts \<open>a\<close> and \<open>b\<close> stays stopped.
\<close>

theorem exclusive_trigger_counterexample:
  "\<not> (playingOf (trackRefs (fst (handleGlobalKeyDown (exampleKey OtherTarget ''KeyQ'' False)
          (exampleApp [(exampleTrack ''a'' (Some ''KeyQ'') 0, True, 5),
                       (exampleTrack ''b'' (Some ''KeyQ'') 0, False, 0)])))) ''a'' = Some False
      \<and> playingOf (trackRefs (fst (handleGlobalKeyDown (exampleKey OtherTarget ''KeyQ'' False)
          (exampleApp [(exampleTrack ''a'' (Some ''KeyQ'') 0, True, 5),
                       (exampleTrack ''b'' (Some ''KeyQ'') 0, False, 0)])))) ''b'' = Some True)"
  by (simp add: example_defs)

text \<open>
  C2, amended: let a key press reach the clip lookup (its target is not a text field; its
  code is not \<open>Space\<close>; its normalised code is not \<open>Comma\<close> or \<open>Period\<close>, and not \<open>ArrowUp\<close> or
  \<open>ArrowDown\<close> while a clip is selected), let B be the first clip in list order bound to
  the code, stopped (not playing, its element paused), and let A be another clip that is
  playing. Then B plays, from its playhead or from its start point if that is later.
  Without shift A is stopped: paused, not playing, playhead at its start point. With shift
  A is as it was, and so is every handle other than B's.
\<close>

theorem exclusive_vs_layered:
  assumes "target e = OtherTarget" "code e \<noteq> ''Space''"
    and "normalizeCode (code e) \<noteq> ''Comma''" "normalizeCode (code e) \<noteq> ''Period''"
    and "selectedItemId s = None \<or> selectedItemId s = Some []
         \<or> (normalizeCode (code e) \<noteq> ''ArrowUp'' \<and> normalizeCode (code e) \<noteq> ''ArrowDown'')"
    and "find (\<lambda>t. type' t = audio \<and> assignedKey t = Some (normalizeCode (code e))) (items s) = Some tb"
    and "refOf (trackRefs s) (id' tb) = Some hb" "\<not> isPlaying hb" "audioRef hb = Some b" "el_paused b"
    and "ida \<noteq> id' tb" "refOf (trackRefs s) ida = Some ha" "isPlaying ha" "audioRef ha = Some a"
  shows "refOf (trackRefs (fst (handleGlobalKeyDown e s))) (id' tb) =
           Some (hb\<lparr>audioRef := Some \<lparr>el_currentTime = max (el_currentTime b) (startPoint (track hb)),
                                       el_paused = False\<rparr>, isPlaying := True\<rparr>)
     \<and> (\<not> shiftKey e \<longrightarrow>
          refOf (trackRefs (fst (handleGlobalKeyDown e s))) ida =
            Some (ha\<lparr>audioRef := Some \<lparr>el_currentTime = startPoint (track ha), el_paused = True\<rparr>,
                    isPlaying := False\<rparr>))
     \<and> (shiftKey e \<longrightarrow>
          refOf (trackRefs (fst (handleGlobalKeyDown e s))) ida = Some ha
          \<and> (\<forall>k. k \<noteq> id' tb \<longrightarrow>
                map_of (trackRefs (fst (handleGlobalKeyDown e s))) k = map_of (trackRefs s) k))"
proof -
  have eq: "handleGlobalKeyDown e s =
      (s\<lparr>trackRefs := handlePlayRequest (id' tb) (shiftKey e) (trackRefs s)\<rparr>, True)"
    using lookup_branch[OF assms(1-7)] assms(8) by simp
  have other: "\<And>k. k \<noteq> id' tb \<Longrightarrow>
      map_of (handlePlayRequest (id' tb) True (trackRefs s)) k = map_of (trackRefs s) k"
    by (simp add: handlePlayRequest_def map_of_onRef_other)
  show ?thesis
    using assms(7-14) other
    by (auto simp: eq refOf_handlePlayRequest play_paused stop_facts)
qed

theorem exclusive_vs_layered_witness:
  "playingOf (trackRefs (exampleApp [(exampleTrack ''a'' (Some ''KeyQ'') 2, True, 5),
                                     (exampleTrack ''b'' (Some ''KeyW'') 0, False, 0)])) ''a''
       = Some True
   \<and> playingOf (trackRefs (exampleApp [(exampleTrack ''a'' (Some ''KeyQ'') 2, True, 5),
                                        (exampleTrack ''b'' (Some ''KeyW'') 0, False, 0)])) ''b''
       = Some False
   \<and> playingOf (trackRefs (fst (handleGlobalKeyDown (exampleKey OtherTarget ''KeyW'' False)
        (exampleApp [(exampleTrack ''a'' (Some ''KeyQ'') 2, True, 5),
                     (exampleTrack ''b'' (Some ''KeyW'') 0, False, 0)])))) ''a'' = Some False
   \<and> playheadOf (trackRefs (fst (handleGlobalKeyDown (exampleKey OtherTarget ''KeyW'' False)
        (exampleApp [(exampleTrack ''a'' (Some ''KeyQ'') 2, True, 5),
                     (exampleTrack ''b'' (Some ''KeyW'') 0, False, 0)])))) ''a'' = Some 2
   \<and> playingOf (trackRefs (fst (handleGlobalKeyDown (exampleKey OtherTarget ''KeyW'' False)
        (exampleApp [(exampleTrack ''a'' (Some ''KeyQ'') 2, True, 5),
                     (exampleTrack ''b'' (Some ''KeyW'') 0, False, 0)])))) ''b'' = Some True
   \<and> playingOf (trackRefs (fst (handleGlobalKeyDown (exampleKey OtherTarget ''KeyW'' True)
        (exampleApp [(exampleTrack ''a'' (Some ''KeyQ'') 2, True, 5),
                     (exampleTrack ''b'' (Some ''KeyW'') 0, False, 0)])))) ''a'' = Some True
   \<and> playheadOf (trackRefs (fst (handleGlobalKeyDown (exampleKey OtherTarget ''KeyW'' True)
        (exampleApp [(exampleTrack ''a'' (Some ''KeyQ'') 2, True, 5),
                     (exampleTrack ''b'' (Some ''KeyW'') 0, False, 0)])))) ''a'' = Some 5
   \<and> playingOf (trackRefs (fst (handleGlobalKeyDown (exampleKey OtherTarget ''KeyW'' True)
        (exampleApp [(exampleTrack ''a'' (Some ''KeyQ'') 2, True, 5),
                     (exampleTrack ''b'' (Some ''KeyW'') 0, False, 0)])))) ''b'' = Some True"
proof -
  let ?ta = "exampleTrack ''a'' (Some ''KeyQ'') 2"
  let ?tb = "exampleTrack ''b'' (Some ''KeyW'') 0"
  let ?s = "exampleApp [(?ta, True, 5), (?tb, False, 0)]"
  let ?ha = "exampleCard ?ta True 5"
  let ?hb = "exampleCard ?tb False 0"
  have n: "\<And>sh. normalizeCode (code (exampleKey OtherTarget ''KeyW'' sh)) = ''KeyW''"
    by (simp add: exampleKey_def normalizeCode_def startsWith_def)
  have h1: "\<And>sh. target (exampleKey OtherTarget ''KeyW'' sh) = OtherTarget"
    and h2: "\<And>sh. code (exampleKey OtherTarget ''KeyW'' sh) \<noteq> ''Space''"
    by (simp_all add: exampleKey_def)
  have h3: "\<And>sh. normalizeCode (code (exampleKey OtherTarget ''KeyW'' sh)) \<noteq> ''Comma''"
    and h4: "\<And>sh. normalizeCode (code (exampleKey OtherTarget ''KeyW'' sh)) \<noteq> ''Period''"
    by (simp_all add: n)
  have h5: "\<And>sh. selectedItemId ?s = None \<or> selectedItemId ?s = Some []
      \<or> (normalizeCode (code (exampleKey OtherTarget ''KeyW'' sh)) \<noteq> ''ArrowUp''
          \<and> normalizeCode (code (exampleKey OtherTarget ''KeyW'' sh)) \<noteq> ''ArrowDown'')"
    by (simp add: exampleApp_def)
  have h6: "\<And>sh. find (\<lambda>t. type' t = audio
        \<and> assignedKey t = Some (normalizeCode (code (exampleKey OtherTarget ''KeyW'' sh)))) (items ?s)
      = Some ?tb"
    by (simp add: n exampleApp_def exampleTrack_def)
  have h7: "refOf (trackRefs ?s) (id' ?tb) = Some ?hb"
    by (simp add: exampleApp_def exampleTrack_def refOf_def)
  have h8: "\<not> isPlaying ?hb"
    and h9: "audioRef ?hb = Some \<lparr>el_currentTime = 0, el_paused = True\<rparr>"
    and h10: "el_paused \<lparr>el_currentTime = 0, el_paused = True\<rparr>"
    by (simp_all add: exampleCard_def)
  have h11: "''a'' \<noteq> id' ?tb"
    by (simp add: exampleTrack_def)
  have h12: "refOf (trackRefs ?s) ''a'' = Some ?ha"
    by (simp add: exampleApp_def exampleTrack_def refOf_def)
  have h13: "isPlaying ?ha"
    and h14: "audioRef ?ha = Some \<lparr>el_currentTime = 5, el_paused = False\<rparr>"
    by (simp_all add: exampleCard_def)
  note excl = exclusive_vs_layered[OF h1 h2 h3 h4 h5 h6 h7 h8 h9 h10 h11 h12 h13 h14, of False]
  note layer = exclusive_vs_layered[OF h1 h2 h3 h4 h5 h6 h7 h8 h9 h10 h11 h12 h13 h14, of True]
  have b: "id' ?tb = ''b''" by (simp add: exampleTrack_def)
  have sf: "\<not> shiftKey (exampleKey OtherTarget ''KeyW'' False)"
    and st: "shiftKey (exampleKey OtherTarget ''KeyW'' True)"
    by (simp_all add: exampleKey_def)
  from excl sf b
  have e1: "refOf (trackRefs (fst (handleGlobalKeyDown (exampleKey OtherTarget ''KeyW'' False) ?s))) ''b''
      = Some (?hb\<lparr>audioRef := Some \<lparr>el_currentTime = max 0 (startPoint (track ?hb)), el_paused = False\<rparr>,
                  isPlaying := True\<rparr>)"
    and e2: "refOf (trackRefs (fst (handleGlobalKeyDown (exampleKey OtherTarget ''KeyW'' False) ?s))) ''a''
      = Some (?ha\<lparr>audioRef := Some \<lparr>el_currentTime = startPoint (track ?ha), el_paused = True\<rparr>,
                  isPlaying := False\<rparr>)"
    by simp_all
  from layer st b
  have l1: "refOf (trackRefs (fst (handleGlobalKeyDown (exampleKey OtherTarget ''KeyW'' True) ?s))) ''b''
      = Some (?hb\<lparr>audioRef := Some \<lparr>el_currentTime = max 0 (startPoint (track ?hb)), el_paused = False\<rparr>,
                  isPlaying := True\<rparr>)"
    and l2: "refOf (trackRefs (fst (handleGlobalKeyDown (exampleKey OtherTarget ''KeyW'' True) ?s))) ''a''
      = Some ?ha"
    by simp_all
  show ?thesis
    unfolding playingOf_def playheadOf_def e1 e2 l1 l2 h12 h7[unfolded b]
    by (simp add: exampleCard_def exampleTrack_def)
qed

subsection \<open>The serial port\<close>

text \<open>
  C8, the claim as stated: a port made from only a path and a baud rate is opened with two
  stop bits. It is not: the constructor's default is one stop bit.
\<close>

theorem SerialPort_stopBits_counterexample:
  "\<not> (opt_stopBits (snd (open_invoke (SerialPort (onlyPathAndBaud ''/dev/ttyUSB0'' 250000))))
        = Some StopBits_Two)"
  by (simp add: open_invoke_def SerialPort_def onlyPathAndBaud_def spreadOver_def)

text \<open>
  C8, amended: a port made by the \<open>SerialPort\<close> wrapper is opened with exactly the
  options the constructor stored, at the caller's path and baud rate. Each optional
  setting is the caller's value when the caller gives one, \<open>undefined\<close> when the caller
  passes it as \<open>undefined\<close>, and otherwise the default: 8 data bits, no flow control, no
  parity, a timeout of 200 and ONE stop bit. So a port made from only a path and a baud
  rate is opened 8N1, and a port is opened with two stop bits exactly when the caller
  passes two stop bits, whatever the other settings. The lighting path does not use the
  wrapper: it invokes \<open>dmx_set_levels\<close> with the port path and the levels only, so no
  framing is configured by this code for lighting transmission.
\<close>

theorem SerialPort_framing:
  "open_invoke (SerialPort opts) = (''plugin:serialplugin|open'', SerialPort opts)
   \<and> opt_path (SerialPort opts) = port_path opts
   \<and> opt_baudRate (SerialPort opts) = baudRate opts
   \<and> opt_dataBits (SerialPort opts) =
        (case dataBits opts of Absent \<Rightarrow> Some DataBits_Eight | Undefined \<Rightarrow> None | Given v \<Rightarrow> Some v)
   \<and> opt_flowControl (SerialPort opts) =
        (case flowControl opts of Absent \<Rightarrow> Some FlowControl_None | Undefined \<Rightarrow> None | Given v \<Rightarrow> Some v)
   \<and> opt_parity (SerialPort opts) =
        (case parity opts of Absent \<Rightarrow> Some Parity_None | Undefined \<Rightarrow> None | Given v \<Rightarrow> Some v)
   \<and> opt_stopBits (SerialPort opts) =
        (case stopBits opts of Absent \<Rightarrow> Some StopBits_One | Undefined \<Rightarrow> None | Given v \<Rightarrow> Some v)
   \<and> opt_timeout (SerialPort opts) =
        (case timeout opts of Absent \<Rightarrow> Some 200 | Undefined \<Rightarrow> None | Given v \<Rightarrow> Some v)
   \<and> (opt_stopBits (snd (open_invoke (SerialPort opts))) = Some StopBits_Two)
        = (stopBits opts = Given StopBits_Two)
   \<and> snd (open_invoke (SerialPort (onlyPathAndBaud p b))) =
        \<lparr>opt_path = p, opt_baudRate = b, opt_dataBits = Some DataBits_Eight,
         opt_flowControl = Some FlowControl_None, opt_parity = Some Parity_None,
         opt_stopBits = Some StopBits_One, opt_timeout = Some 200\<rparr>
   \<and> sendDmxLevels portPath levels = (''dmx_set_levels'', portPath, levels)
   \<and> fst (sendDmxLevels portPath levels) \<noteq> fst (open_invoke (SerialPort opts))"
  by (simp add: open_invoke_def SerialPort_def onlyPathAndBaud_def spreadOver_def
      sendDmxLevels_def split: field.splits)

subsection \<open>Invariant of the decode queue\<close>

lemmas decode_defs =
  decodeAudioDataSafely_def resume_def processQueue_def getAudioContext_def
  MAX_CONCURRENT_DECODES_def Let_def

lemma inv_init: "decodeInv initialDecodeState"
  by (simp add: decodeInv_def initialDecodeState_def)

lemma inv_submit: "decodeInv s \<Longrightarrow> decodeInv (decodeAudioDataSafely c s)"
  by (auto simp: decodeInv_def decode_defs split: list.splits)

lemma length_remove1_in:
  "x \<in> set xs \<Longrightarrow> length xs = Suc (length (remove1 x xs))"
  by (induction xs) auto

lemma inv_resume:
  assumes "decodeInv s" "task \<in> set (awaiting s)"
  shows "decodeInv (resume c task ok s)"
proof -
  from assms(2) have "length (awaiting s) = Suc (length (remove1 task (awaiting s)))"
    by (rule length_remove1_in)
  moreover from assms have "sharedAudioContext s"
    by (auto simp: decodeInv_def)
  ultimately show ?thesis using assms
    by (auto simp: decodeInv_def decode_defs split: list.splits)
qed

lemma inv_step: "decodeInv s \<Longrightarrow> decodeInv (decodeStep e s)"
  by (cases e) (simp_all add: inv_submit inv_resume)

lemma inv_run: "decodeInv s \<Longrightarrow> decodeInv (decodeRun evs s)"
  by (induction evs arbitrary: s) (simp_all add: inv_step)

lemma step_submitted:
  "submitted (decodeStep e s) = submitted s + (if isSubmit e then 1 else 0)"
  by (cases e) (auto simp: decode_defs split: list.splits)

lemma run_submitted:
  "submitted (decodeRun evs s) = submitted s + length (filter isSubmit evs)"
  by (induction evs arbitrary: s) (simp_all add: step_submitted)

lemma step_lost: "set (lost s) \<subseteq> set (lost (decodeStep e s))"
  by (cases e) (auto simp: decode_defs split: list.splits)

lemma run_lost: "set (lost s) \<subseteq> set (lost (decodeRun evs s))"
proof (induction evs arbitrary: s)
  case Nil
  then show ?case by simp
next
  case (Cons e evs)
  have "set (lost s) \<subseteq> set (lost (decodeStep e s))" by (rule step_lost)
  also have "\<dots> \<subseteq> set (lost (decodeRun evs (decodeStep e s)))" by (rule Cons.IH)
  finally show ?case by simp
qed

lemma resume_keeps:
  "sharedAudioContext s \<Longrightarrow>
     submitted (resume c task ok s) = submitted s \<and> lost (resume c task ok s) = lost s"
  by (simp add: decode_defs split: list.splits)

lemma drain_inv:
  "decodeInv s \<Longrightarrow> decodeInv (drain c ok s) \<and> awaiting (drain c ok s) = []
     \<and> submitted (drain c ok s) = submitted s \<and> lost (drain c ok s) = lost s"
proof (induction c ok s rule: drain.induct)
  case (1 c ok s)
  show ?case
  proof (cases "awaiting s")
    case Nil
    with "1.prems" show ?thesis by simp
  next
    case (Cons task rest)
    then have "task \<in> set (awaiting s)" by simp
    with "1.prems" have i: "decodeInv (resume c task ok s)" by (simp add: inv_resume)
    from "1.prems" Cons have "sharedAudioContext s" by (auto simp: decodeInv_def)
    from "1.IH"[OF Cons i] Cons resume_keeps[OF this, of c task ok] show ?thesis
      by simp
  qed
qed

lemma inv_settled_all:
  assumes "decodeInv s" "awaiting s = []" "lost s = []"
  shows "decodeQueue s = [] \<and> distinct (map fst (settled s))
     \<and> set (map fst (settled s)) = {0..<submitted s}"
proof -
  from assms have q: "decodeQueue s = []" by (auto simp: decodeInv_def)
  from assms q have m: "mset (map fst (settled s)) = mset [0..<submitted s]"
    by (auto simp: decodeInv_def)
  have "distinct (map fst (settled s))"
    using m by (metis distinct_upt mset_eq_imp_distinct_iff)
  moreover have "set (map fst (settled s)) = {0..<submitted s}"
    using m by (metis mset_eq_setD set_upt)
  ultimately show ?thesis using q by simp
qed

lemma inv_once:
  assumes "decodeInv s"
  shows "distinct (map fst (settled s) @ awaiting s @ lost s)
     \<and> set (map fst (settled s)) \<union> set (awaiting s) \<union> set (lost s) = set (started s)"
proof -
  from assms have d: "distinct (started s @ decodeQueue s)"
    by (simp add: decodeInv_def)
  from assms have m: "mset (started s) = mset (map fst (settled s) @ awaiting s @ lost s)"
    by (simp add: decodeInv_def)
  from d have "distinct (started s)" by simp
  then have "distinct (map fst (settled s) @ awaiting s @ lost s)"
    using m by (metis mset_eq_imp_distinct_iff)
  moreover have "set (started s) = set (map fst (settled s) @ awaiting s @ lost s)"
    using m by (rule mset_eq_setD)
  ultimately show ?thesis by auto
qed

lemma inv_count:
  assumes "decodeInv s"
  shows "length (settled s) + length (awaiting s) + length (lost s) + length (decodeQueue s)
     = submitted s"
proof -
  from assms have "size (mset (started s))
      = size (mset (map fst (settled s)) + mset (awaiting s) + mset (lost s))"
    by (simp add: decodeInv_def)
  then have a: "length (started s) = length (settled s) + length (awaiting s) + length (lost s)"
    by simp
  from assms have "length (started s @ decodeQueue s) = length [0..<submitted s]"
    by (simp add: decodeInv_def)
  then show ?thesis using a by simp
qed

lemma inv_completion:
  assumes "decodeInv s" "task \<in> set (awaiting s)"
  shows "settled (decodeStep (Settle task ok c) s) = settled s @ [(task, ok)]
     \<and> (case decodeQueue s of
          [] \<Rightarrow> decodeQueue (decodeStep (Settle task ok c) s) = []
               \<and> awaiting (decodeStep (Settle task ok c) s) = remove1 task (awaiting s)
               \<and> started (decodeStep (Settle task ok c) s) = started s
        | next # rest \<Rightarrow>
               decodeQueue (decodeStep (Settle task ok c) s) = rest
               \<and> awaiting (decodeStep (Settle task ok c) s) = remove1 task (awaiting s) @ [next]
               \<and> started (decodeStep (Settle task ok c) s) = started s @ [next])"
proof -
  from assms(2) have "length (awaiting s) = Suc (length (remove1 task (awaiting s)))"
    by (rule length_remove1_in)
  moreover from assms have "sharedAudioContext s"
    by (auto simp: decodeInv_def)
  ultimately show ?thesis using assms
    by (auto simp: decodeInv_def decode_defs split: list.splits)
qed

subsection \<open>The decode queue\<close>

text \<open>
  The admission discipline, for any sequence of submissions and settlements and whatever
  the platform does: the counter is between 0 and 2 and bounds the pending decodes; the
  number of tasks is the number of submissions; the tasks started so far, in start order,
  followed by the waiting tasks are the submissions in submission order; a task waits only
  while the counter is 2; when a pending decode settles, with success or failure, its task
  is settled with that outcome and exactly the head of the waiting list, if there is one,
  is started; no task is settled twice, and the started tasks are the settled, the pending
  and the lost ones. As long as no start has thrown: when no decode is pending every
  submission has been settled, and once the pending decodes settle one after the other,
  every submitted task has been started and settled exactly once.
\<close>

theorem decode_queue_admission:
  assumes "s = decodeRun evs initialDecodeState"
  shows "0 \<le> activeDecodes s \<and> activeDecodes s \<le> MAX_CONCURRENT_DECODES
     \<and> int (length (awaiting s)) \<le> activeDecodes s
     \<and> activeDecodes s = int (length (awaiting s) + length (lost s))
     \<and> submitted s = length (filter isSubmit evs)
     \<and> started s @ decodeQueue s = [0..<length (filter isSubmit evs)]
     \<and> (decodeQueue s = [] \<or> activeDecodes s = MAX_CONCURRENT_DECODES)
     \<and> (\<forall>task ok c. task \<in> set (awaiting s) \<longrightarrow>
           settled (decodeStep (Settle task ok c) s) = settled s @ [(task, ok)]
           \<and> (case decodeQueue s of
                [] \<Rightarrow> decodeQueue (decodeStep (Settle task ok c) s) = []
                     \<and> awaiting (decodeStep (Settle task ok c) s) = remove1 task (awaiting s)
                     \<and> started (decodeStep (Settle task ok c) s) = started s
              | next # rest \<Rightarrow>
                     decodeQueue (decodeStep (Settle task ok c) s) = rest
                     \<and> awaiting (decodeStep (Settle task ok c) s) = remove1 task (awaiting s) @ [next]
                     \<and> started (decodeStep (Settle task ok c) s) = started s @ [next]))
     \<and> distinct (map fst (settled s) @ awaiting s @ lost s)
     \<and> set (map fst (settled s)) \<union> set (awaiting s) \<union> set (lost s) = set (started s)
     \<and> length (settled s) + length (awaiting s) + length (lost s) + length (decodeQueue s)
         = length (filter isSubmit evs)
     \<and> (lost s = [] \<longrightarrow>
           (awaiting s = [] \<longrightarrow>
              decodeQueue s = [] \<and> set (map fst (settled s)) = {0..<length (filter isSubmit evs)})
           \<and> decodeQueue (drain c ok s) = [] \<and> awaiting (drain c ok s) = []
           \<and> distinct (map fst (settled (drain c ok s)))
           \<and> set (map fst (settled (drain c ok s))) = {0..<length (filter isSubmit evs)})"
proof -
  have inv: "decodeInv s"
    unfolding assms by (rule inv_run[OF inv_init])
  have n: "submitted s = length (filter isSubmit evs)"
    unfolding assms by (simp add: run_submitted initialDecodeState_def)
  have bound: "0 \<le> activeDecodes s \<and> activeDecodes s \<le> MAX_CONCURRENT_DECODES
      \<and> int (length (awaiting s)) \<le> activeDecodes s
      \<and> activeDecodes s = int (length (awaiting s) + length (lost s))
      \<and> started s @ decodeQueue s = [0..<submitted s]
      \<and> (decodeQueue s = [] \<or> activeDecodes s = MAX_CONCURRENT_DECODES)"
    using inv by (auto simp: decodeInv_def MAX_CONCURRENT_DECODES_def)
  have idle: "lost s = [] \<longrightarrow> awaiting s = [] \<longrightarrow>
      decodeQueue s = [] \<and> set (map fst (settled s)) = {0..<submitted s}"
    using inv_settled_all[OF inv] by simp
  have d: "decodeInv (drain c ok s)" "awaiting (drain c ok s) = []"
    "submitted (drain c ok s) = submitted s" "lost (drain c ok s) = lost s"
    using drain_inv[OF inv, of c ok] by simp_all
  have fin: "lost s = [] \<longrightarrow> decodeQueue (drain c ok s) = [] \<and> awaiting (drain c ok s) = []
      \<and> distinct (map fst (settled (drain c ok s)))
      \<and> set (map fst (settled (drain c ok s))) = {0..<submitted s}"
    using inv_settled_all[OF d(1) d(2)] d(2,3,4) by simp
  show ?thesis
    using bound inv_completion[OF inv] inv_once[OF inv] inv_count[OF inv] idle fin
    unfolding n by blast
qed

lemma example_run: "exampleDecodeState = decodeRun exampleEvents initialDecodeState"
  by (simp add: exampleDecodeState_def exampleEvents_def initialDecodeState_def decode_defs)

theorem decode_queue_admission_witness:
  "exampleDecodeState = decodeRun exampleEvents initialDecodeState
   \<and> activeDecodes exampleDecodeState = 2
   \<and> started exampleDecodeState @ decodeQueue exampleDecodeState = [0, 1, 2, 3, 4]
   \<and> length (filter isSubmit exampleEvents) = 5
   \<and> awaiting (decodeStep (Settle 0 True True) exampleDecodeState) = [2, 3]
   \<and> decodeQueue (drain True True exampleDecodeState) = []
   \<and> awaiting (drain True True exampleDecodeState) = []
   \<and> set (map fst (settled (drain True True exampleDecodeState))) = {0, 1, 2, 3, 4}"
proof -
  note t = decode_queue_admission[OF example_run, of True True]
  have l: "lost exampleDecodeState = []"
    by (simp add: exampleDecodeState_def)
  have n: "length (filter isSubmit exampleEvents) = 5"
    by (simp add: exampleEvents_def)
  have "set (map fst (settled (drain True True exampleDecodeState))) = {0..<5}"
    using t l unfolding n by blast
  moreover have "{0..<5::nat} = {0, 1, 2, 3, 4}"
    by auto
  moreover have "decodeQueue (drain True True exampleDecodeState) = []
      \<and> awaiting (drain True True exampleDecodeState) = []"
    using t l by blast
  moreover have "awaiting (decodeStep (Settle 0 True True) exampleDecodeState) = [2, 3]"
    by (simp add: exampleDecodeState_def decode_defs)
  moreover have "started exampleDecodeState @ decodeQueue exampleDecodeState = [0, 1, 2, 3, 4]"
    by (simp add: exampleDecodeState_def)
  moreover have "activeDecodes exampleDecodeState = 2"
    by (simp add: exampleDecodeState_def)
  ultimately show ?thesis using example_run n by simp
qed

lemma stuck_step:
  "activeDecodes s = 2 \<and> awaiting s = [] \<and> settled s = [] \<Longrightarrow>
     activeDecodes (decodeStep e s) = 2 \<and> awaiting (decodeStep e s) = []
     \<and> settled (decodeStep e s) = []"
  by (cases e) (simp_all add: decode_defs)

lemma stuck_run:
  "activeDecodes s = 2 \<and> awaiting s = [] \<and> settled s = [] \<Longrightarrow>
     activeDecodes (decodeRun evs s) = 2 \<and> awaiting (decodeRun evs s) = []
     \<and> settled (decodeRun evs s) = []"
proof (induction evs arbitrary: s)
  case Nil
  then show ?case by simp
next
  case (Cons e evs)
  from stuck_step[OF Cons.prems] show ?case
    by (simp add: Cons.IH)
qed

text \<open>
  C4, where the code departs from the claim: a submission during which the audio context
  cannot be constructed. \<open>processQueue\<close> has already shifted the task and incremented the
  counter when \<open>getAudioContext()\<close> throws, outside the \<open>try\<close> whose \<open>finally\<close> would
  release the slot. The first task is then off the queue with the counter at 1 and no
  decode pending; whatever is submitted and settled afterwards, that task is never
  settled and never pending, and at most one decode runs at a time. After a second such
  submission the counter stays at 2 with nothing pending: no task is ever settled again.
\<close>

theorem decode_context_failure_leaks:
  "decodeRun [Submit False] initialDecodeState =
     \<lparr>decodeQueue = [], activeDecodes = 1, sharedAudioContext = False, submitted = 1,
      started = [0], awaiting = [], settled = [], lost = [0]\<rparr>
   \<and> 0 \<notin> set (map fst (settled (decodeRun (Submit False # evs) initialDecodeState)))
   \<and> 0 \<notin> set (awaiting (decodeRun (Submit False # evs) initialDecodeState))
   \<and> length (awaiting (decodeRun (Submit False # evs) initialDecodeState)) \<le> 1
   \<and> int (length (awaiting (decodeRun (Submit False # evs) initialDecodeState)))
       < activeDecodes (decodeRun (Submit False # evs) initialDecodeState)
   \<and> settled (decodeRun (Submit False # Submit False # evs) initialDecodeState) = []
   \<and> awaiting (decodeRun (Submit False # Submit False # evs) initialDecodeState) = []
   \<and> activeDecodes (decodeRun (Submit False # Submit False # evs) initialDecodeState) = 2"
proof -
  let ?s1 = "decodeStep (Submit False) initialDecodeState"
  let ?s = "decodeRun evs ?s1"
  have one: "decodeRun [Submit False] initialDecodeState =
     \<lparr>decodeQueue = [], activeDecodes = 1, sharedAudioContext = False, submitted = 1,
      started = [0], awaiting = [], settled = [], lost = [0]\<rparr>"
    by (simp add: initialDecodeState_def decode_defs)
  have "decodeInv ?s1" by (rule inv_step[OF inv_init])
  then have inv: "decodeInv ?s" by (rule inv_run)
  have "0 \<in> set (lost ?s1)"
    by (simp add: initialDecodeState_def decode_defs)
  then have l: "0 \<in> set (lost ?s)" using run_lost by blast
  from inv_once[OF inv] l
  have a: "0 \<notin> set (map fst (settled ?s))" and b: "0 \<notin> set (awaiting ?s)"
    by auto
  from l obtain n where "length (lost ?s) = Suc n"
    by (cases "lost ?s") auto
  with inv have c: "length (awaiting ?s) \<le> 1"
    and d: "int (length (awaiting ?s)) < activeDecodes ?s"
    by (auto simp: decodeInv_def)
  have "activeDecodes (decodeStep (Submit False) ?s1) = 2
      \<and> awaiting (decodeStep (Submit False) ?s1) = []
      \<and> settled (decodeStep (Submit False) ?s1) = []"
    by (simp add: initialDecodeState_def decode_defs)
  from stuck_run[OF this, of evs] one a b c d show ?thesis
    by simp
qed

theorem decode_context_failure_leaks_witness:
  "decodeRun [Submit False, Submit True, Settle 1 True True] initialDecodeState =
     \<lparr>decodeQueue = [], activeDecodes = 1, sharedAudioContext = True, submitted = 2,
      started = [0, 1], awaiting = [], settled = [(1, True)], lost = [0]\<rparr>
   \<and> 0 \<notin> set (map fst (settled
        (decodeRun [Submit False, Submit True, Settle 1 True True] initialDecodeState)))
   \<and> settled (decodeRun [Submit False, Submit False, Submit True, Submit True]
        initialDecodeState) = []
   \<and> decodeQueue (decodeRun [Submit False, Submit False, Submit True, Submit True]
        initialDecodeState) = [2, 3]"
  using decode_context_failure_leaks[of "[Submit True, Settle 1 True True]"]
    decode_context_failure_leaks[of "[Submit True, Submit True]"]
  by (simp add: initialDecodeState_def decode_defs)

subsection \<open>Channel writes\<close>

lemma panelInv_init: "panelInv initialDmxPanel"
  by (simp add: panelInv_def initialDmxPanel_def createEmptyLevels_def levelOk_def list_all_iff)

lemma levelOk_update:
  "list_all levelOk xs \<Longrightarrow> levelOk x \<Longrightarrow> list_all levelOk (xs[k := x])"
  by (auto simp: list_all_iff dest: set_update_subset_insert[THEN subsetD])

lemma arraySet_in_range:
  "0 \<le> i \<Longrightarrow> i < int (length xs) \<Longrightarrow> arraySet xs i v = xs[nat i := Some v]"
  by (simp add: arraySet_def)

lemma selectedValue_ok: "panelInv p \<Longrightarrow> levelOk (Some (selectedValue p))"
proof -
  assume inv: "panelInv p"
  then have r: "nat (selectedChannel p - 1) < length (dmxLevels p)"
    by (auto simp: panelInv_def)
  with inv have "levelOk (dmxLevels p ! nat (selectedChannel p - 1))"
    by (simp add: panelInv_def list_all_length)
  with inv show ?thesis
    by (auto simp: selectedValue_def arrayGet_def panelInv_def levelOk_def split: option.splits)
qed

lemma panelInv_step: "panelInv p \<Longrightarrow> panelInv (panelStep e p)"
proof (cases e)
  case (ChannelChange v)
  assume "panelInv p"
  then show ?thesis using ChannelChange
    by (simp add: panelInv_def handleChannelChange_def)
next
  case (LevelChange v)
  assume inv: "panelInv p"
  then have "arraySet (dmxLevels p) (selectedChannel p - 1) (min 255 (max 0 v))
      = (dmxLevels p)[nat (selectedChannel p - 1) := Some (min 255 (max 0 v))]"
    by (intro arraySet_in_range) (simp_all add: panelInv_def)
  moreover have "levelOk (Some (min 255 (max 0 v)))"
    by (simp add: levelOk_def)
  ultimately show ?thesis using inv LevelChange
    by (simp add: panelInv_def handleLevelChange_def levelOk_update)
next
  case ApplyToAll
  assume inv: "panelInv p"
  from selectedValue_ok[OF inv] inv ApplyToAll show ?thesis
    by (simp add: panelInv_def applyToAll_def list_all_iff)
qed

lemma panelInv_run: "panelInv p \<Longrightarrow> panelInv (panelRun evs p)"
  by (induction evs arbitrary: p) (simp_all add: panelInv_step)

lemma setChannel_eq:
  assumes "length (dmxLevels p) = 512"
  shows "setChannel i v p =
     p\<lparr>selectedChannel := min 512 (max 1 i),
       dmxLevels := (dmxLevels p)[nat (min 512 (max 1 i) - 1) := Some (min 255 (max 0 v))]\<rparr>"
  using assms
  by (simp add: setChannel_def handleLevelChange_def handleChannelChange_def arraySet_def)

text \<open>
  C5: in every state the panel reaches from its initial state, the levels array has 512
  entries, each a level from 0 to 255. A channel write with any integers \<open>i\<close> and \<open>v\<close>
  has no failing branch; it writes the one position \<open>clamp(i, 1, 512) - 1\<close>, which is in
  range, with \<open>clamp(v, 0, 255)\<close>, and leaves the length at 512. \<open>setChannel(-1, 300)\<close>
  writes 255 at position 0 and \<open>setChannel(600, -5)\<close> writes 0 at position 511.
\<close>

theorem channel_write_bounds:
  assumes "p = panelRun evs initialDmxPanel"
  shows "length (dmxLevels p) = 512
     \<and> list_all levelOk (dmxLevels p)
     \<and> setChannel i v p =
         p\<lparr>selectedChannel := min 512 (max 1 i),
           dmxLevels := (dmxLevels p)[nat (min 512 (max 1 i) - 1) := Some (min 255 (max 0 v))]\<rparr>
     \<and> nat (min 512 (max 1 i) - 1) < 512
     \<and> 0 \<le> min 255 (max 0 v) \<and> min 255 (max 0 v) \<le> 255
     \<and> length (dmxLevels (setChannel i v p)) = 512
     \<and> list_all levelOk (dmxLevels (setChannel i v p))
     \<and> dmxLevels (setChannel (- 1) 300 p) = (dmxLevels p)[0 := Some 255]
     \<and> dmxLevels (setChannel 600 (- 5) p) = (dmxLevels p)[511 := Some 0]"
proof -
  have inv: "panelInv p"
    unfolding assms by (rule panelInv_run[OF panelInv_init])
  then have len: "length (dmxLevels p) = 512" and ok: "list_all levelOk (dmxLevels p)"
    by (simp_all add: panelInv_def)
  have ok': "list_all levelOk ((dmxLevels p)[nat (min 512 (max 1 i) - 1) := Some (min 255 (max 0 v))])"
    using ok by (simp add: levelOk_update levelOk_def)
  show ?thesis
    using len ok ok' by (simp add: setChannel_eq[OF len])
qed

theorem channel_write_bounds_witness:
  "length (dmxLevels (panelRun [ChannelChange 600, LevelChange 300] initialDmxPanel)) = 512
   \<and> dmxLevels (panelRun [ChannelChange 600, LevelChange 300] initialDmxPanel) ! 511 = Some 255
   \<and> length (dmxLevels (setChannel (- 1) 300
        (panelRun [ChannelChange 600, LevelChange 300] initialDmxPanel))) = 512
   \<and> dmxLevels (setChannel (- 1) 300 (panelRun [ChannelChange 600, LevelChange 300] initialDmxPanel))
       = (dmxLevels (panelRun [ChannelChange 600, LevelChange 300] initialDmxPanel))[0 := Some 255]
   \<and> dmxLevels (setChannel 600 (- 5) (panelRun [ChannelChange 600, LevelChange 300] initialDmxPanel))
       = (dmxLevels (panelRun [ChannelChange 600, LevelChange 300] initialDmxPanel))[511 := Some 0]"
proof -
  have run: "panelRun [ChannelChange 600, LevelChange 300] initialDmxPanel
      = panelRun [ChannelChange 600, LevelChange 300] initialDmxPanel" ..
  have at: "dmxLevels (panelRun [ChannelChange 600, LevelChange 300] initialDmxPanel) ! 511 = Some 255"
    by (simp add: initialDmxPanel_def createEmptyLevels_def handleChannelChange_def
        handleLevelChange_def arraySet_def)
  show ?thesis
    using channel_write_bounds[OF run, of "- 1" 300] channel_write_bounds[OF run, of 600 "- 5"] at
    by simp
qed

subsection \<open>Loading a session\<close>

text \<open>
  C7: for a parsed document with an items array, every item is reconstructed with its
  missing optional fields defaulted: volume 0.8, start point 0, looping false, assigned key
  null (and duration 0); nothing is alerted. For a document without items the loader sets
  the session name, alerts the legacy-format warning, not the failure message, and returns
  with the items unchanged.
\<close>

theorem loader_contract:
  "(ss_items doc = Some savedItems \<longrightarrow>
      length (items (handleLoadSession cfs gid (Parsed doc) s)) = length savedItems
      \<and> alerts (handleLoadSession cfs gid (Parsed doc) s) = alerts s
      \<and> (\<forall>k < length savedItems.
            volume (items (handleLoadSession cfs gid (Parsed doc) s) ! k) =
              (case s_volume (savedItems ! k) of None \<Rightarrow> 0.8 | Some v \<Rightarrow> v)
            \<and> startPoint (items (handleLoadSession cfs gid (Parsed doc) s) ! k) =
              (case s_startPoint (savedItems ! k) of None \<Rightarrow> 0 | Some v \<Rightarrow> v)
            \<and> isLooping (items (handleLoadSession cfs gid (Parsed doc) s) ! k) =
              (case s_isLooping (savedItems ! k) of None \<Rightarrow> False | Some v \<Rightarrow> v)
            \<and> assignedKey (items (handleLoadSession cfs gid (Parsed doc) s) ! k) =
              s_assignedKey (savedItems ! k)
            \<and> name (items (handleLoadSession cfs gid (Parsed doc) s) ! k) = s_name (savedItems ! k)
            \<and> duration (items (handleLoadSession cfs gid (Parsed doc) s) ! k) = 0))
   \<and> (ss_items doc = None \<longrightarrow>
        handleLoadSession cfs gid (Parsed doc) s =
          s\<lparr>sessionName := (case ss_name doc of None \<Rightarrow> ''Loaded Session''
                             | Some n \<Rightarrow> if n = [] then ''Loaded Session'' else n),
            alerts := alerts s @ [''Legacy session format. Some data might be missing.'']\<rparr>)"
  by (auto simp: handleLoadSession_def Let_def reconstruct_def nth_enumerate_eq)

theorem loader_contract_witness:
  "items (handleLoadSession (\<lambda>p. p) (\<lambda>k. ''new'')
       (Parsed \<lparr>ss_name = Some ''Set'', ss_items = Some [exampleSavedTrack]\<rparr>) (exampleApp []))
     = [\<lparr>id' = ''t1'', type' = audio, name = ''Kick'', fileUrl = [], volume = 0.8,
         startPoint = 0, isLooping = False, assignedKey = None, duration = 0, path = None\<rparr>]
   \<and> alerts (handleLoadSession (\<lambda>p. p) (\<lambda>k. ''new'')
       (Parsed \<lparr>ss_name = Some ''Set'', ss_items = Some [exampleSavedTrack]\<rparr>) (exampleApp [])) = []
   \<and> handleLoadSession (\<lambda>p. p) (\<lambda>k. ''new'')
       (Parsed \<lparr>ss_name = Some ''Old'', ss_items = None\<rparr>) (exampleApp [])
     = (exampleApp [])\<lparr>sessionName := ''Old'',
          alerts := [''Legacy session format. Some data might be missing.'']\<rparr>"
  using loader_contract
    [of "\<lparr>ss_name = Some ''Set'', ss_items = Some [exampleSavedTrack]\<rparr>" "[exampleSavedTrack]"
        "\<lambda>p. p" "\<lambda>k. ''new''" "exampleApp []"]
    loader_contract
    [of "\<lparr>ss_name = Some ''Old'', ss_items = None\<rparr>" "[]"
        "\<lambda>p. p" "\<lambda>k. ''new''" "exampleApp []"]
  by (simp add: handleLoadSession_def reconstruct_def exampleSavedTrack_def exampleApp_def)

subsection \<open>The start cue\<close>










subsection \<open>Mute\<close>

text \<open>
  C10, the claim as stated: toggling mute at volume 0 when no volume was remembered
  restores 0.8. A fresh control at volume 0 restores 1.
\<close>

theorem mute_restores_counterexample:
  "\<not> snd (clickMute (initialVolumeControl, 0)) = 0.8"
  by (simp add: clickMute_def toggleMute_def initialVolumeControl_def)

lemma lastVolume_positive:
  "0 < lastVolume (fst p) \<Longrightarrow> 0 < lastVolume (fst (volumeRun evs p))"
proof (induction evs arbitrary: p)
  case Nil
  then show ?case by simp
next
  case (Cons e evs)
  have "0 < lastVolume (fst (volumeStep e p))"
    using Cons.prems by (cases e) (simp_all add: clickMute_def toggleMute_def)
  then show ?case using Cons.IH by simp
qed

text \<open>
  C10, amended: for every volume \<open>v > 0\<close> a click on mute remembers \<open>v\<close> and sets the
  volume to 0, and the next click restores exactly \<open>v\<close>. A click at a volume that is not
  positive restores the remembered volume, which is 1 until the first mute click stores
  one; the remembered volume is always positive, so the fallback 0.8 (for a remembered 0)
  is never used.
\<close>

theorem mute_round_trip:
  "(0 < v \<longrightarrow> clickMute (vc, v) = (vc\<lparr>lastVolume := v\<rparr>, 0)
              \<and> clickMute (clickMute (vc, v)) = (vc\<lparr>lastVolume := v\<rparr>, v))
   \<and> (\<not> 0 < v \<longrightarrow> clickMute (vc, v) = (vc, if lastVolume vc = 0 then 0.8 else lastVolume vc))
   \<and> 0 < lastVolume (fst (volumeRun evs (initialVolumeControl, v0)))
   \<and> (snd (volumeRun evs (initialVolumeControl, v0)) = 0 \<longrightarrow>
        snd (clickMute (volumeRun evs (initialVolumeControl, v0)))
          = lastVolume (fst (volumeRun evs (initialVolumeControl, v0))))
   \<and> clickMute (initialVolumeControl, 0) = (initialVolumeControl, 1)"
proof -
  have pos: "0 < lastVolume (fst (volumeRun evs (initialVolumeControl, v0)))"
    by (rule lastVolume_positive) (simp add: initialVolumeControl_def)
  show ?thesis
    using pos by (auto simp: clickMute_def toggleMute_def initialVolumeControl_def)
qed

theorem mute_round_trip_witness:
  "clickMute (initialVolumeControl, 0.35) = (\<lparr>lastVolume = 0.35\<rparr>, 0)
   \<and> clickMute (clickMute (initialVolumeControl, 0.35)) = (\<lparr>lastVolume = 0.35\<rparr>, 0.35)
   \<and> volumeRun [VolumeSet 0.5, MuteClick, MuteClick, VolumeSet 0, MuteClick] (initialVolumeControl, 0.8)
       = (\<lparr>lastVolume = 0.5\<rparr>, 0.5)
   \<and> volumeRun [VolumeSet 0, MuteClick] (initialVolumeControl, 0.8) = (initialVolumeControl, 1)"
  using mute_round_trip[of "0.35" initialVolumeControl "[VolumeSet 0, MuteClick]" "0.8"]
  by (simp add: clickMute_def toggleMute_def initialVolumeControl_def)

end
